theory Spec2Isabelle
  imports Complex_Main
begin

section \<open>Workout tracker: the ownership-scoped store behind the request handlers\<close>

text \<open>
  A shallow embedding of \<^verbatim>\<open>backend/models.py\<close>, \<^verbatim>\<open>backend/schemas.py\<close> and the handlers
  of \<^verbatim>\<open>backend/main.py\<close>. The four relations are lists of rows, a handler is a function
  from the request body, the authenticated user and the stored database to its response
  and to the list of database states that its calls of \<^verbatim>\<open>db.commit()\<close> make durable, in
  order. A handler that raises \<^verbatim>\<open>HTTPException\<close> before its first commit returns the
  exception and the empty list: the session is closed by \<^verbatim>\<open>get_db\<close> and nothing pending
  is written.

  A Python exception that no handler catches (the driver's \<^verbatim>\<open>OverflowError\<close>, a response
  that fails validation or cannot be encoded) is an error value as well; the server
  answers it with status 500. Such an exception can come after a commit, and then the
  committed state stays.

  Python strings are modelled by their UTF-8 encoding (an injective encoding, so equality
  of strings is preserved), Python integers by \<open>int\<close>, Python floats by the binary64
  numbers of the section below. The columns \<^verbatim>\<open>created_at\<close> (filled by the server clock)
  are left out, and so are the endpoints that write nothing and only issue or read a
  bearer token (\<^verbatim>\<open>login\<close>, \<^verbatim>\<open>get_me\<close>).
\<close>

subsection \<open>Python floats\<close>

text \<open>
  A Python float is an IEEE 754 binary64 number. A finite float is modelled by the rational
  it denotes, so the two zeros are one value (Python compares them equal, and SQLite
  returns 0.0 for either); there is one NaN. An arithmetic operation rounds its exact
  result to the nearest binary64 number, a tie to the even significand, and overflows to
  an infinity: a number of magnitude \<open>a\<close> with \<open>2\<^sup>n \<le> a < 2\<^sup>n\<^sup>+\<^sup>1\<close> is rounded to a multiple of
  \<open>2\<^sup>e\<close> for \<open>e = max (n - 52) (- 1074)\<close>, and the result is infinite from \<open>2\<^sup>1\<^sup>0\<^sup>2\<^sup>4\<close> on.
\<close>

datatype pyfloat = Finite rat | PosInf | NegInf | NaN

function bit_length :: "nat \<Rightarrow> nat" where
  "bit_length n = (if n = 0 then 0 else Suc (bit_length (n div 2)))"
  by pat_completeness auto
termination
  by (relation "measure id") auto

definition pow2 :: "int \<Rightarrow> rat" where
  "pow2 e = (if 0 \<le> e then 2 ^ nat e else 1 / 2 ^ nat (- e))"

text \<open>The \<open>n\<close> with \<open>2\<^sup>n \<le> a < 2\<^sup>n\<^sup>+\<^sup>1\<close>, for a positive \<open>a\<close>.\<close>

definition ilog2 :: "rat \<Rightarrow> int" where
  "ilog2 a = (if 1 \<le> a then int (bit_length (nat \<lfloor>a\<rfloor>)) - 1
              else - int (bit_length (nat (\<lceil>1 / a\<rceil> - 1))))"

definition round_half_even :: "rat \<Rightarrow> int" where
  "round_half_even x =
     (let f = \<lfloor>x\<rfloor>; r = x - of_int f
      in if r < 1 / 2 then f else if 1 / 2 < r then f + 1 else if even f then f else f + 1)"

definition round_double :: "rat \<Rightarrow> pyfloat" where
  "round_double q =
     (if q = 0 then Finite 0
      else let a = \<bar>q\<bar>;
               e = max (ilog2 a - 52) (- 1074);
               m = round_half_even (a / pow2 e);
               v = of_int m * pow2 e
           in if pow2 1024 \<le> v then (if q < 0 then NegInf else PosInf)
              else Finite (if q < 0 then - v else v))"

fun float_mul :: "pyfloat \<Rightarrow> pyfloat \<Rightarrow> pyfloat" where
  "float_mul (Finite a) (Finite b) = round_double (a * b)"
| "float_mul NaN y = NaN"
| "float_mul x NaN = NaN"
| "float_mul (Finite a) PosInf = (if a = 0 then NaN else if 0 < a then PosInf else NegInf)"
| "float_mul (Finite a) NegInf = (if a = 0 then NaN else if 0 < a then NegInf else PosInf)"
| "float_mul PosInf (Finite b) = (if b = 0 then NaN else if 0 < b then PosInf else NegInf)"
| "float_mul NegInf (Finite b) = (if b = 0 then NaN else if 0 < b then NegInf else PosInf)"
| "float_mul PosInf PosInf = PosInf"
| "float_mul PosInf NegInf = NegInf"
| "float_mul NegInf PosInf = NegInf"
| "float_mul NegInf NegInf = PosInf"

fun float_add :: "pyfloat \<Rightarrow> pyfloat \<Rightarrow> pyfloat" where
  "float_add (Finite a) (Finite b) = round_double (a + b)"
| "float_add NaN y = NaN"
| "float_add x NaN = NaN"
| "float_add PosInf NegInf = NaN"
| "float_add NegInf PosInf = NaN"
| "float_add PosInf y = PosInf"
| "float_add x PosInf = PosInf"
| "float_add NegInf y = NegInf"
| "float_add x NegInf = NegInf"

text \<open>\<^verbatim>\<open>x < y\<close> on floats: false whenever a NaN is compared.\<close>

fun float_less :: "pyfloat \<Rightarrow> pyfloat \<Rightarrow> bool" where
  "float_less (Finite a) (Finite b) = (a < b)"
| "float_less NaN y = False"
| "float_less x NaN = False"
| "float_less x NegInf = False"
| "float_less PosInf y = False"
| "float_less NegInf y = True"
| "float_less x PosInf = True"

fun is_finite :: "pyfloat \<Rightarrow> bool" where
  "is_finite (Finite q) = True"
| "is_finite x = False"

text \<open>
  The conversion of an integer operand in \<^verbatim>\<open>float * int\<close>. It raises \<^verbatim>\<open>OverflowError\<close>
  from \<open>2\<^sup>1\<^sup>0\<^sup>2\<^sup>4\<close> on; the handlers apply it to integers of 64 bits only.
\<close>

definition float_of_int :: "int \<Rightarrow> pyfloat" where
  "float_of_int n = round_double (of_int n)"

subsection \<open>Integers and reals in the database\<close>

text \<open>
  An INTEGER column holds a signed integer of 64 bits. The driver (\<^verbatim>\<open>sqlite3\<close>) raises
  \<^verbatim>\<open>OverflowError\<close> when a statement binds a Python integer outside this range, be it
  in a comparison or in a row to insert. A REAL column holds every float but NaN, in
  whose place SQLite stores NULL.

  The record endpoints below carry this error. \<open>delete_category\<close>, \<open>update_exercise\<close>
  and \<open>delete_exercise\<close> look a row up by an id of the path in the same way; they are
  given for an id inside the range, and the one theorem that applies them to an id no row
  carries (on ownership as a filter) states the range.
\<close>

definition in_int64 :: "int \<Rightarrow> bool" where
  "in_int64 i \<longleftrightarrow> - (2 ^ 63) \<le> i \<and> i < 2 ^ 63"

definition sqlite_real :: "pyfloat \<Rightarrow> pyfloat option" where
  "sqlite_real x = (if x = NaN then None else Some x)"

subsection \<open>Rows (models.py)\<close>

record user =
  user_id :: int
  user_email :: string
  user_hashed_password :: string

record category =
  cat_id :: int
  cat_name :: string
  cat_user_id :: int

record exercise =
  ex_id :: int
  ex_name :: string
  ex_category_id :: "int option"
  ex_user_id :: int

text \<open>
  \<^verbatim>\<open>exercise_id\<close> of a workout record is a nullable foreign key: the handlers always
  write an id, and the session writes NULL when the exercise is deleted (see
  \<open>delete_exercise\<close>). \<^verbatim>\<open>weight\<close> and \<^verbatim>\<open>volume\<close> are nullable REAL columns: they are
  NULL where a NaN was written. \<^verbatim>\<open>memo\<close> is never written by a handler.
\<close>

record workout_record =
  rec_id :: int
  rec_date :: string
  rec_exercise_id :: "int option"
  rec_exercise_name :: string
  rec_weight :: "pyfloat option"
  rec_reps :: int
  rec_sets :: int
  rec_memo :: "string option"
  rec_volume :: "pyfloat option"
  rec_user_id :: int

record db =
  users :: "user list"
  categories :: "category list"
  exercises :: "exercise list"
  workout_records :: "workout_record list"

definition empty_db :: db where
  "empty_db = \<lparr>users = [], categories = [], exercises = [], workout_records = []\<rparr>"

subsection \<open>Request and response bodies (schemas.py)\<close>

record user_create =
  uc_email :: string
  uc_password :: string

record category_create =
  cc_name :: string

record exercise_create =
  ec_name :: string
  ec_category_id :: "int option"

record exercise_update =
  eu_category_id :: "int option"

record record_create =
  rc_date :: string
  rc_exercise_id :: int
  rc_weight :: pyfloat
  rc_reps :: int
  rc_sets :: int

record stats_response =
  total_workouts :: nat
  total_volume :: int
  max_weight :: pyfloat

text \<open>
  What a request ends with when it does not return: the \<^verbatim>\<open>HTTPException\<close> that a handler
  raises, or an exception of Python that nothing catches (status 500).
\<close>

datatype error =
    HTTPException (status_code: nat) (detail: string)
  | OverflowError
  | ValueError
  | ResponseValidationError

type_synonym 'a outcome = "(error + 'a) \<times> db list"

subsection \<open>String constants of main.py, UTF-8 encoded\<close>

definition bench_press :: string where
  "bench_press =
     [CHR 0xE3, CHR 0x83, CHR 0x99, CHR 0xE3, CHR 0x83, CHR 0xB3,
      CHR 0xE3, CHR 0x83, CHR 0x81, CHR 0xE3, CHR 0x83, CHR 0x97,
      CHR 0xE3, CHR 0x83, CHR 0xAC, CHR 0xE3, CHR 0x82, CHR 0xB9]"

definition squat :: string where
  "squat =
     [CHR 0xE3, CHR 0x82, CHR 0xB9, CHR 0xE3, CHR 0x82, CHR 0xAF,
      CHR 0xE3, CHR 0x83, CHR 0xAF, CHR 0xE3, CHR 0x83, CHR 0x83,
      CHR 0xE3, CHR 0x83, CHR 0x88]"

definition deadlift :: string where
  "deadlift =
     [CHR 0xE3, CHR 0x83, CHR 0x87, CHR 0xE3, CHR 0x83, CHR 0x83,
      CHR 0xE3, CHR 0x83, CHR 0x89, CHR 0xE3, CHR 0x83, CHR 0xAA,
      CHR 0xE3, CHR 0x83, CHR 0x95, CHR 0xE3, CHR 0x83, CHR 0x88]"

definition pull_up :: string where
  "pull_up =
     [CHR 0xE6, CHR 0x87, CHR 0xB8, CHR 0xE5, CHR 0x9E, CHR 0x82]"

definition shoulder_press :: string where
  "shoulder_press =
     [CHR 0xE3, CHR 0x82, CHR 0xB7, CHR 0xE3, CHR 0x83, CHR 0xA7,
      CHR 0xE3, CHR 0x83, CHR 0xAB, CHR 0xE3, CHR 0x83, CHR 0x80,
      CHR 0xE3, CHR 0x83, CHR 0xBC, CHR 0xE3, CHR 0x83, CHR 0x97,
      CHR 0xE3, CHR 0x83, CHR 0xAC, CHR 0xE3, CHR 0x82, CHR 0xB9]"

definition barbell_row :: string where
  "barbell_row =
     [CHR 0xE3, CHR 0x83, CHR 0x90, CHR 0xE3, CHR 0x83, CHR 0xBC,
      CHR 0xE3, CHR 0x83, CHR 0x99, CHR 0xE3, CHR 0x83, CHR 0xAB,
      CHR 0xE3, CHR 0x83, CHR 0xAD, CHR 0xE3, CHR 0x83, CHR 0xBC]"

definition detail_email_in_use :: string where
  "detail_email_in_use =
     [CHR 0xE3, CHR 0x81, CHR 0x93, CHR 0xE3, CHR 0x81, CHR 0xAE,
      CHR 0xE3, CHR 0x83, CHR 0xA1, CHR 0xE3, CHR 0x83, CHR 0xBC,
      CHR 0xE3, CHR 0x83, CHR 0xAB, CHR 0xE3, CHR 0x82, CHR 0xA2,
      CHR 0xE3, CHR 0x83, CHR 0x89, CHR 0xE3, CHR 0x83, CHR 0xAC,
      CHR 0xE3, CHR 0x82, CHR 0xB9, CHR 0xE3, CHR 0x81, CHR 0xAF,
      CHR 0xE6, CHR 0x97, CHR 0xA2, CHR 0xE3, CHR 0x81, CHR 0xAB,
      CHR 0xE4, CHR 0xBD, CHR 0xBF, CHR 0xE7, CHR 0x94, CHR 0xA8,
      CHR 0xE3, CHR 0x81, CHR 0x95, CHR 0xE3, CHR 0x82, CHR 0x8C,
      CHR 0xE3, CHR 0x81, CHR 0xA6, CHR 0xE3, CHR 0x81, CHR 0x84,
      CHR 0xE3, CHR 0x81, CHR 0xBE, CHR 0xE3, CHR 0x81, CHR 0x99]"

definition detail_category_not_found :: string where
  "detail_category_not_found =
     [CHR 0xE3, CHR 0x82, CHR 0xAB, CHR 0xE3, CHR 0x83, CHR 0x86,
      CHR 0xE3, CHR 0x82, CHR 0xB4, CHR 0xE3, CHR 0x83, CHR 0xAA,
      CHR 0xE3, CHR 0x81, CHR 0x8C, CHR 0xE8, CHR 0xA6, CHR 0x8B,
      CHR 0xE3, CHR 0x81, CHR 0xA4, CHR 0xE3, CHR 0x81, CHR 0x8B,
      CHR 0xE3, CHR 0x82, CHR 0x8A, CHR 0xE3, CHR 0x81, CHR 0xBE,
      CHR 0xE3, CHR 0x81, CHR 0x9B, CHR 0xE3, CHR 0x82, CHR 0x93]"

definition detail_exercise_not_found :: string where
  "detail_exercise_not_found =
     [CHR 0xE3, CHR 0x82, CHR 0xA8, CHR 0xE3, CHR 0x82, CHR 0xAF,
      CHR 0xE3, CHR 0x82, CHR 0xB5, CHR 0xE3, CHR 0x82, CHR 0xB5,
      CHR 0xE3, CHR 0x82, CHR 0xA4, CHR 0xE3, CHR 0x82, CHR 0xBA,
      CHR 0xE3, CHR 0x81, CHR 0x8C, CHR 0xE8, CHR 0xA6, CHR 0x8B,
      CHR 0xE3, CHR 0x81, CHR 0xA4, CHR 0xE3, CHR 0x81, CHR 0x8B,
      CHR 0xE3, CHR 0x82, CHR 0x8A, CHR 0xE3, CHR 0x81, CHR 0xBE,
      CHR 0xE3, CHR 0x81, CHR 0x9B, CHR 0xE3, CHR 0x82, CHR 0x93]"

definition detail_record_not_found :: string where
  "detail_record_not_found =
     [CHR 0xE8, CHR 0xA8, CHR 0x98, CHR 0xE9, CHR 0x8C, CHR 0xB2,
      CHR 0xE3, CHR 0x81, CHR 0x8C, CHR 0xE8, CHR 0xA6, CHR 0x8B,
      CHR 0xE3, CHR 0x81, CHR 0xA4, CHR 0xE3, CHR 0x81, CHR 0x8B,
      CHR 0xE3, CHR 0x82, CHR 0x8A, CHR 0xE3, CHR 0x81, CHR 0xBE,
      CHR 0xE3, CHR 0x81, CHR 0x9B, CHR 0xE3, CHR 0x82, CHR 0x93]"

definition deleted_message :: string where
  "deleted_message =
     [CHR 0xE5, CHR 0x89, CHR 0x8A, CHR 0xE9, CHR 0x99, CHR 0xA4,
      CHR 0xE3, CHR 0x81, CHR 0x97, CHR 0xE3, CHR 0x81, CHR 0xBE,
      CHR 0xE3, CHR 0x81, CHR 0x97, CHR 0xE3, CHR 0x81, CHR 0x9F]"


subsection \<open>The persistence layer\<close>

text \<open>
  A new row receives its integer primary key when the session flushes it. The engine
  that \<^verbatim>\<open>database.py\<close> configures by default (SQLite) gives a row of a table whose key is
  an integer primary key the largest key of the table plus one, and 1 in an empty table.
  The general theorems below use only that the new key is not a key of the table; the
  example runs insert before they delete anything, so a sequence gives them the same keys.
\<close>

definition next_id :: "int list \<Rightarrow> int" where
  "next_id ids = fold max ids 0 + 1"

text \<open>The durable state after a handler: its last commit, or the state it started from.\<close>

definition after :: "db \<Rightarrow> db list \<Rightarrow> db" where
  "after d cs = last (d # cs)"

subsection \<open>Auth endpoints\<close>

definition default_exercises :: "string list" where
  "default_exercises =
     [bench_press, squat, deadlift, pull_up, shoulder_press, barbell_row]"

text \<open>One turn of the loop of \<open>register\<close>: a pending exercise row of the new user.\<close>

definition add_exercise :: "int \<Rightarrow> exercise list \<Rightarrow> string \<Rightarrow> exercise list" where
  "add_exercise uid rows name =
     rows @ [\<lparr>ex_id = next_id (map ex_id rows), ex_name = name,
              ex_category_id = None, ex_user_id = uid\<rparr>]"

text \<open>
  \<^verbatim>\<open>get_password_hash\<close> comes from the module \<^verbatim>\<open>auth\<close> and is a parameter here.
  The handler commits twice: the user row first (its id is read back by
  \<^verbatim>\<open>db.refresh\<close>), then the six exercise rows together.
\<close>

definition register :: "(string \<Rightarrow> string) \<Rightarrow> user_create \<Rightarrow> db \<Rightarrow> user outcome" where
  "register get_password_hash user d =
     (case find (\<lambda>u. user_email u = uc_email user) (users d) of
        Some db_user \<Rightarrow> (Inl (HTTPException 400 detail_email_in_use), [])
      | None \<Rightarrow>
          (let hashed_password = get_password_hash (uc_password user);
               new_user = \<lparr>user_id = next_id (map user_id (users d)),
                            user_email = uc_email user,
                            user_hashed_password = hashed_password\<rparr>;
               d1 = d\<lparr>users := users d @ [new_user]\<rparr>;
               d2 = d1\<lparr>exercises :=
                      foldl (add_exercise (user_id new_user)) (exercises d1) default_exercises\<rparr>
           in (Inr new_user, [d1, d2])))"

subsection \<open>Category endpoints\<close>

definition get_categories :: "user \<Rightarrow> db \<Rightarrow> category list" where
  "get_categories current_user d =
     filter (\<lambda>c. cat_user_id c = user_id current_user) (categories d)"

definition create_category :: "category_create \<Rightarrow> user \<Rightarrow> db \<Rightarrow> category outcome" where
  "create_category category current_user d =
     (let new_category = \<lparr>cat_id = next_id (map cat_id (categories d)),
                           cat_name = cc_name category,
                           cat_user_id = user_id current_user\<rparr>
      in (Inr new_category, [d\<lparr>categories := categories d @ [new_category]\<rparr>]))"

text \<open>
  The exercises to unlink are selected by \<^verbatim>\<open>category_id\<close> alone; the unlinking and the
  deletion are flushed by the one \<^verbatim>\<open>db.commit()\<close>.
\<close>

definition delete_category :: "int \<Rightarrow> user \<Rightarrow> db \<Rightarrow> string outcome" where
  "delete_category category_id current_user d =
     (case find (\<lambda>c. cat_id c = category_id \<and> cat_user_id c = user_id current_user)
             (categories d) of
        None \<Rightarrow> (Inl (HTTPException 404 detail_category_not_found), [])
      | Some category \<Rightarrow>
          (let unlinked = map (\<lambda>ex. if ex_category_id ex = Some category_id
                                     then ex\<lparr>ex_category_id := None\<rparr> else ex)
                              (exercises d)
           in (Inr deleted_message,
               [d\<lparr>exercises := unlinked,
                   categories := filter (\<lambda>c. cat_id c \<noteq> cat_id category) (categories d)\<rparr>])))"

subsection \<open>Exercise endpoints\<close>

definition get_exercises :: "user \<Rightarrow> db \<Rightarrow> exercise list" where
  "get_exercises current_user d =
     filter (\<lambda>e. ex_user_id e = user_id current_user) (exercises d)"

definition create_exercise :: "exercise_create \<Rightarrow> user \<Rightarrow> db \<Rightarrow> exercise outcome" where
  "create_exercise exercise current_user d =
     (let new_exercise = \<lparr>ex_id = next_id (map ex_id (exercises d)),
                           ex_name = ec_name exercise,
                           ex_category_id = ec_category_id exercise,
                           ex_user_id = user_id current_user\<rparr>
      in (Inr new_exercise, [d\<lparr>exercises := exercises d @ [new_exercise]\<rparr>]))"

definition update_exercise ::
  "int \<Rightarrow> exercise_update \<Rightarrow> user \<Rightarrow> db \<Rightarrow> exercise outcome" where
  "update_exercise exercise_id exercise_update current_user d =
     (case find (\<lambda>e. ex_id e = exercise_id \<and> ex_user_id e = user_id current_user)
             (exercises d) of
        None \<Rightarrow> (Inl (HTTPException 404 detail_exercise_not_found), [])
      | Some exercise \<Rightarrow>
          (let exercise' = exercise\<lparr>ex_category_id := eu_category_id exercise_update\<rparr>
           in (Inr exercise',
               [d\<lparr>exercises := map (\<lambda>e. if ex_id e = ex_id exercise then exercise' else e)
                                    (exercises d)\<rparr>])))"

text \<open>
  \<^verbatim>\<open>Exercise.records\<close> (models.py) is a one-to-many relationship without a delete cascade
  and with the default \<^verbatim>\<open>passive_deletes\<close>. When the session deletes the exercise it
  therefore de-associates the children: the flush loads the workout records that refer to
  the exercise, whoever owns them, sets their \<^verbatim>\<open>exercise_id\<close> to NULL, and then deletes
  the exercise row, all in the one commit. (\<^verbatim>\<open>Category.exercises\<close> is declared the same
  way; there the handler's own loop already nulls the same rows.)
\<close>

definition delete_exercise :: "int \<Rightarrow> user \<Rightarrow> db \<Rightarrow> string outcome" where
  "delete_exercise exercise_id current_user d =
     (case find (\<lambda>e. ex_id e = exercise_id \<and> ex_user_id e = user_id current_user)
             (exercises d) of
        None \<Rightarrow> (Inl (HTTPException 404 detail_exercise_not_found), [])
      | Some exercise \<Rightarrow>
          (let orphaned = map (\<lambda>r. if rec_exercise_id r = Some (ex_id exercise)
                                    then r\<lparr>rec_exercise_id := None\<rparr> else r)
                              (workout_records d)
           in (Inr deleted_message,
               [d\<lparr>workout_records := orphaned,
                   exercises := filter (\<lambda>e. ex_id e \<noteq> ex_id exercise) (exercises d)\<rparr>])))"

subsection \<open>Record endpoints\<close>

text \<open>
  The rows that a record endpoint returns pass through \<^verbatim>\<open>RecordResponse\<close>, whose
  \<^verbatim>\<open>exercise_id\<close>, \<^verbatim>\<open>weight\<close> and \<^verbatim>\<open>volume\<close> are required: a row with a NULL there fails
  the validation of the response (\<^verbatim>\<open>ResponseValidationError\<close>). The validated rows are
  then encoded as JSON, which rejects an infinite float (\<^verbatim>\<open>ValueError\<close>).
\<close>

definition response_valid :: "workout_record \<Rightarrow> bool" where
  "response_valid r \<longleftrightarrow>
     rec_exercise_id r \<noteq> None \<and> rec_weight r \<noteq> None \<and> rec_volume r \<noteq> None"

fun stored_finite :: "pyfloat option \<Rightarrow> bool" where
  "stored_finite None = False"
| "stored_finite (Some x) = is_finite x"

definition response_renders :: "workout_record \<Rightarrow> bool" where
  "response_renders r \<longleftrightarrow> stored_finite (rec_weight r) \<and> stored_finite (rec_volume r)"

definition response_error :: "workout_record list \<Rightarrow> error option" where
  "response_error rows =
     (if \<not> list_all response_valid rows then Some ResponseValidationError
      else if \<not> list_all response_renders rows then Some ValueError
      else None)"

text \<open>The query of \<open>get_records\<close> and of \<open>get_stats\<close>: the rows of the caller.\<close>

definition records_of :: "user \<Rightarrow> db \<Rightarrow> workout_record list" where
  "records_of current_user d =
     filter (\<lambda>r. rec_user_id r = user_id current_user) (workout_records d)"

definition get_records :: "user \<Rightarrow> db \<Rightarrow> error + workout_record list" where
  "get_records current_user d =
     (let rows = records_of current_user d
      in case response_error rows of Some e \<Rightarrow> Inl e | None \<Rightarrow> Inr rows)"

text \<open>
  The lookup binds \<^verbatim>\<open>exercise_id\<close>, and the INSERT binds \<^verbatim>\<open>reps\<close> and \<^verbatim>\<open>sets\<close>; outside the
  range of the column each raises \<^verbatim>\<open>OverflowError\<close>, the latter when the commit flushes
  the row, so that nothing is stored. The product is \<^verbatim>\<open>(weight * reps) * sets\<close> in float
  arithmetic. The row is committed before the response is built from it (read back by
  \<^verbatim>\<open>db.refresh\<close>), so a response that fails leaves the row stored.
\<close>

definition create_record :: "record_create \<Rightarrow> user \<Rightarrow> db \<Rightarrow> workout_record outcome" where
  "create_record record current_user d =
     (if \<not> in_int64 (rc_exercise_id record) then (Inl OverflowError, [])
      else
        case find (\<lambda>e. ex_id e = rc_exercise_id record \<and> ex_user_id e = user_id current_user)
               (exercises d) of
          None \<Rightarrow> (Inl (HTTPException 404 detail_exercise_not_found), [])
        | Some exercise \<Rightarrow>
            (if \<not> in_int64 (rc_reps record) \<or> \<not> in_int64 (rc_sets record)
             then (Inl OverflowError, [])
             else
               let volume = float_mul (float_mul (rc_weight record)
                                         (float_of_int (rc_reps record)))
                              (float_of_int (rc_sets record));
                   new_record = \<lparr>rec_id = next_id (map rec_id (workout_records d)),
                                  rec_date = rc_date record,
                                  rec_exercise_id = Some (rc_exercise_id record),
                                  rec_exercise_name = ex_name exercise,
                                  rec_weight = sqlite_real (rc_weight record),
                                  rec_reps = rc_reps record,
                                  rec_sets = rc_sets record,
                                  rec_memo = None,
                                  rec_volume = sqlite_real volume,
                                  rec_user_id = user_id current_user\<rparr>;
                   d' = d\<lparr>workout_records := workout_records d @ [new_record]\<rparr>
               in case response_error [new_record] of
                    None \<Rightarrow> (Inr new_record, [d'])
                  | Some e \<Rightarrow> (Inl e, [d'])))"

definition delete_record :: "int \<Rightarrow> user \<Rightarrow> db \<Rightarrow> string outcome" where
  "delete_record record_id current_user d =
     (if \<not> in_int64 record_id then (Inl OverflowError, [])
      else
        case find (\<lambda>r. rec_id r = record_id \<and> rec_user_id r = user_id current_user)
               (workout_records d) of
          None \<Rightarrow> (Inl (HTTPException 404 detail_record_not_found), [])
        | Some record \<Rightarrow>
            (Inr deleted_message,
             [d\<lparr>workout_records :=
                  filter (\<lambda>r. rec_id r \<noteq> rec_id record) (workout_records d)\<rparr>]))"

subsection \<open>Stats endpoint\<close>

text \<open>
  \<^verbatim>\<open>x or 0\<close> on a nullable float: 0 when \<open>x\<close> is falsy, that is NULL or zero, and \<open>x\<close>
  otherwise.
\<close>

definition py_or0 :: "pyfloat option \<Rightarrow> pyfloat" where
  "py_or0 x = (case x of None \<Rightarrow> Finite 0 | Some v \<Rightarrow> if v = Finite 0 then Finite 0 else v)"

text \<open>
  \<^verbatim>\<open>sum\<close> adds from the left, starting at 0, and rounds after every addition, as CPython
  does before version 3.12 (later versions carry a compensation term, which changes the
  last bits of an inexact sum).
\<close>

definition py_sum :: "pyfloat list \<Rightarrow> pyfloat" where
  "py_sum xs = foldl float_add (Finite 0) xs"

text \<open>\<^verbatim>\<open>max(..., default=0)\<close>: the default on no item, else the first largest item.\<close>

fun py_max_default :: "pyfloat list \<Rightarrow> pyfloat \<Rightarrow> pyfloat" where
  "py_max_default [] dflt = dflt"
| "py_max_default (x # xs) dflt = foldl (\<lambda>m y. if float_less m y then y else m) x xs"

text \<open>
  \<^verbatim>\<open>int\<close> of a float drops the fractional part, towards zero; it raises on an infinity
  and on NaN.
\<close>

fun py_int :: "pyfloat \<Rightarrow> error + int" where
  "py_int (Finite q) = Inr (if q < 0 then - \<lfloor>- q\<rfloor> else \<lfloor>q\<rfloor>)"
| "py_int NaN = Inl ValueError"
| "py_int x = Inl OverflowError"

text \<open>
  The dictionary is built after the three aggregates, so \<^verbatim>\<open>int\<close> raises first; the JSON
  encoder then rejects an infinite or NaN \<^verbatim>\<open>max_weight\<close>.
\<close>

definition get_stats :: "user \<Rightarrow> db \<Rightarrow> error + stats_response" where
  "get_stats current_user d =
     (let records = records_of current_user d;
          unique_dates = set (map rec_date records);
          total_volume = py_sum (map (\<lambda>r. py_or0 (rec_volume r)) records);
          max_weight = py_max_default (map (\<lambda>r. py_or0 (rec_weight r)) records) (Finite 0)
      in case py_int total_volume of
           Inl e \<Rightarrow> Inl e
         | Inr n \<Rightarrow>
             if is_finite max_weight
             then Inr \<lparr>total_workouts = card unique_dates, total_volume = n,
                       max_weight = max_weight\<rparr>
             else Inl ValueError)"

subsection \<open>Requests, durable states and reachability\<close>

datatype request =
    Register "string \<Rightarrow> string" user_create
  | GetCategories user
  | CreateCategory category_create user
  | DeleteCategory int user
  | GetExercises user
  | CreateExercise exercise_create user
  | UpdateExercise int exercise_update user
  | DeleteExercise int user
  | GetRecords user
  | CreateRecord record_create user
  | DeleteRecord int user
  | GetStats user

text \<open>The states a request makes durable; the read endpoints never commit.\<close>

fun commits :: "request \<Rightarrow> db \<Rightarrow> db list" where
  "commits (Register h uc) d = snd (register h uc d)"
| "commits (GetCategories u) d = []"
| "commits (CreateCategory cc u) d = snd (create_category cc u d)"
| "commits (DeleteCategory i u) d = snd (delete_category i u d)"
| "commits (GetExercises u) d = []"
| "commits (CreateExercise ec u) d = snd (create_exercise ec u d)"
| "commits (UpdateExercise i eu u) d = snd (update_exercise i eu u d)"
| "commits (DeleteExercise i u) d = snd (delete_exercise i u d)"
| "commits (GetRecords u) d = []"
| "commits (CreateRecord rc u) d = snd (create_record rc u d)"
| "commits (DeleteRecord i u) d = snd (delete_record i u d)"
| "commits (GetStats u) d = []"

text \<open>
  Every endpoint but registration depends on \<^verbatim>\<open>get_current_user\<close> (module \<^verbatim>\<open>auth\<close>),
  which resolves the bearer token to a stored user row.
\<close>

fun authenticated :: "request \<Rightarrow> db \<Rightarrow> bool" where
  "authenticated (Register h uc) d = True"
| "authenticated (GetCategories u) d = (u \<in> set (users d))"
| "authenticated (CreateCategory cc u) d = (u \<in> set (users d))"
| "authenticated (DeleteCategory i u) d = (u \<in> set (users d))"
| "authenticated (GetExercises u) d = (u \<in> set (users d))"
| "authenticated (CreateExercise ec u) d = (u \<in> set (users d))"
| "authenticated (UpdateExercise i eu u) d = (u \<in> set (users d))"
| "authenticated (DeleteExercise i u) d = (u \<in> set (users d))"
| "authenticated (GetRecords u) d = (u \<in> set (users d))"
| "authenticated (CreateRecord rc u) d = (u \<in> set (users d))"
| "authenticated (DeleteRecord i u) d = (u \<in> set (users d))"
| "authenticated (GetStats u) d = (u \<in> set (users d))"

text \<open>
  The reachable states: the empty database that \<^verbatim>\<open>create_all\<close> sets up, and every state
  that a request of an authenticated user commits from a reachable state. The parameter
  \<open>G\<close> restricts the requests that are considered.
\<close>

inductive reachable_under :: "(request \<Rightarrow> db \<Rightarrow> bool) \<Rightarrow> db \<Rightarrow> bool"
  for G :: "request \<Rightarrow> db \<Rightarrow> bool" where
  initial: "reachable_under G empty_db"
| committed: "reachable_under G d \<Longrightarrow> authenticated req d \<Longrightarrow> G req d \<Longrightarrow>
              d' \<in> set (commits req d) \<Longrightarrow> reachable_under G d'"

definition reachable :: "db \<Rightarrow> bool" where
  "reachable d = reachable_under (\<lambda>req d. True) d"

subsection \<open>Well-formed databases\<close>

text \<open>
  What holds in every reachable state (\<open>reachable_under_wf\<close> below): primary keys are
  unique within a table, and the owner of a row is a stored user.
\<close>

definition wf_db :: "db \<Rightarrow> bool" where
  "wf_db d \<longleftrightarrow>
     distinct (map user_id (users d)) \<and>
     distinct (map cat_id (categories d)) \<and>
     distinct (map ex_id (exercises d)) \<and>
     distinct (map rec_id (workout_records d)) \<and>
     (\<forall>c \<in> set (categories d). cat_user_id c \<in> user_id ` set (users d)) \<and>
     (\<forall>e \<in> set (exercises d). ex_user_id e \<in> user_id ` set (users d)) \<and>
     (\<forall>r \<in> set (workout_records d). rec_user_id r \<in> user_id ` set (users d))"

subsection \<open>A concrete database\<close>

text \<open>
  Two users. Alice owns the category 1 and Bob the category 2. Bob's exercise 3 is linked
  to Alice's category 1, which \<open>create_exercise\<close> and \<open>update_exercise\<close> both allow.
  The volumes are the ones \<open>create_record\<close> stores.
\<close>

definition alice :: user where
  "alice = \<lparr>user_id = 1, user_email = ''alice@example.com'', user_hashed_password = ''$2b$a''\<rparr>"

definition bob :: user where
  "bob = \<lparr>user_id = 2, user_email = ''bob@example.com'', user_hashed_password = ''$2b$b''\<rparr>"

definition gym_db :: db where
  "gym_db =
     \<lparr>users = [alice, bob],
      categories =
        [\<lparr>cat_id = 1, cat_name = ''legs'', cat_user_id = 1\<rparr>,
         \<lparr>cat_id = 2, cat_name = ''arms'', cat_user_id = 2\<rparr>],
      exercises =
        [\<lparr>ex_id = 1, ex_name = ''squat'', ex_category_id = Some 1, ex_user_id = 1\<rparr>,
         \<lparr>ex_id = 2, ex_name = ''lunge'', ex_category_id = Some 1, ex_user_id = 1\<rparr>,
         \<lparr>ex_id = 3, ex_name = ''curl'', ex_category_id = Some 1, ex_user_id = 2\<rparr>,
         \<lparr>ex_id = 4, ex_name = ''press'', ex_category_id = None, ex_user_id = 2\<rparr>],
      workout_records =
        [\<lparr>rec_id = 1, rec_date = ''2024-01-01'', rec_exercise_id = Some 1,
          rec_exercise_name = ''squat'', rec_weight = Some (Finite 50), rec_reps = 10, rec_sets = 3,
          rec_memo = None, rec_volume = Some (Finite 1500), rec_user_id = 1\<rparr>,
         \<lparr>rec_id = 2, rec_date = ''2024-01-01'', rec_exercise_id = Some 2,
          rec_exercise_name = ''lunge'', rec_weight = Some (Finite (5 / 2)), rec_reps = 3, rec_sets = 1,
          rec_memo = None, rec_volume = Some (Finite (15 / 2)), rec_user_id = 1\<rparr>,
         \<lparr>rec_id = 3, rec_date = ''2024-01-02'', rec_exercise_id = Some 1,
          rec_exercise_name = ''squat'', rec_weight = Some (Finite 60), rec_reps = 5, rec_sets = 1,
          rec_memo = None, rec_volume = Some (Finite 300), rec_user_id = 1\<rparr>,
         \<lparr>rec_id = 4, rec_date = ''2024-01-03'', rec_exercise_id = Some 4,
          rec_exercise_name = ''press'', rec_weight = Some (Finite 40), rec_reps = 5, rec_sets = 5,
          rec_memo = None, rec_volume = Some (Finite 1000), rec_user_id = 2\<rparr>]\<rparr>"

subsection \<open>Registration as a whole\<close>

text \<open>
  Registration seen from a stored state: the user of the given id is there with exactly
  six exercises, or neither the user nor an exercise of that owner is there.
\<close>

definition registered_whole :: "int \<Rightarrow> db \<Rightarrow> bool" where
  "registered_whole uid s \<longleftrightarrow>
     uid \<in> user_id ` set (users s) \<and>
       length (filter (\<lambda>e. ex_user_id e = uid) (exercises s)) = 6 \<or>
     uid \<notin> user_id ` set (users s) \<and> filter (\<lambda>e. ex_user_id e = uid) (exercises s) = []"

subsection \<open>Example runs from the empty database\<close>

definition carol_create :: user_create where
  "carol_create = \<lparr>uc_email = ''carol@example.com'', uc_password = ''secret''\<rparr>"

definition carol :: user where
  "carol = \<lparr>user_id = 1, user_email = ''carol@example.com'', user_hashed_password = ''secret''\<rparr>"

definition carol_only :: db where
  "carol_only = \<lparr>users = [carol], categories = [], exercises = [], workout_records = []\<rparr>"

definition carol_seeded :: db where
  "carol_seeded = carol_only\<lparr>exercises :=
     [\<lparr>ex_id = 1, ex_name = bench_press, ex_category_id = None, ex_user_id = 1\<rparr>,
      \<lparr>ex_id = 2, ex_name = squat, ex_category_id = None, ex_user_id = 1\<rparr>,
      \<lparr>ex_id = 3, ex_name = deadlift, ex_category_id = None, ex_user_id = 1\<rparr>,
      \<lparr>ex_id = 4, ex_name = pull_up, ex_category_id = None, ex_user_id = 1\<rparr>,
      \<lparr>ex_id = 5, ex_name = shoulder_press, ex_category_id = None, ex_user_id = 1\<rparr>,
      \<lparr>ex_id = 6, ex_name = barbell_row, ex_category_id = None, ex_user_id = 1\<rparr>]\<rparr>"

subsection \<open>The category of an exercise\<close>

text \<open>Every exercise with a category refers to a stored category of its own owner.\<close>

definition category_links_owned :: "db \<Rightarrow> bool" where
  "category_links_owned d \<longleftrightarrow>
     (\<forall>e \<in> set (exercises d).
        case ex_category_id e of
          None \<Rightarrow> True
        | Some k \<Rightarrow> \<exists>c \<in> set (categories d). cat_id c = k \<and> cat_user_id c = ex_user_id e)"

text \<open>
  The contract that the handlers leave to the caller: a category id sent with an exercise
  is null or the id of a category that the caller owns.
\<close>

definition category_ok :: "user \<Rightarrow> int option \<Rightarrow> db \<Rightarrow> bool" where
  "category_ok u k d =
     (case k of
        None \<Rightarrow> True
      | Some i \<Rightarrow> \<exists>c \<in> set (categories d). cat_id c = i \<and> cat_user_id c = user_id u)"

fun category_contract :: "request \<Rightarrow> db \<Rightarrow> bool" where
  "category_contract (CreateExercise ec u) d = category_ok u (ec_category_id ec) d"
| "category_contract (UpdateExercise i eu u) d = category_ok u (eu_category_id eu) d"
| "category_contract req d = True"

definition dave_create :: user_create where
  "dave_create = \<lparr>uc_email = ''dave@example.com'', uc_password = ''hunter2''\<rparr>"

definition dave :: user where
  "dave = \<lparr>user_id = 2, user_email = ''dave@example.com'', user_hashed_password = ''hunter2''\<rparr>"

text \<open>Carol links a new exercise to the category that Dave created.\<close>

definition two_users :: db where
  "two_users = after carol_seeded (commits (Register (\<lambda>p. p) dave_create) carol_seeded)"

definition with_category :: db where
  "with_category =
     after two_users (commits (CreateCategory \<lparr>cc_name = ''legs''\<rparr> dave) two_users)"

definition cross_linked :: db where
  "cross_linked =
     after with_category
       (commits (CreateExercise \<lparr>ec_name = ''lunge'', ec_category_id = Some 1\<rparr> carol)
          with_category)"

text \<open>Carol links a new exercise to a category of her own.\<close>

definition own_category :: db where
  "own_category =
     after carol_seeded (commits (CreateCategory \<lparr>cc_name = ''legs''\<rparr> carol) carol_seeded)"

definition own_linked :: db where
  "own_linked =
     after own_category
       (commits (CreateExercise \<lparr>ec_name = ''lunge'', ec_category_id = Some 1\<rparr> carol)
          own_category)"

subsection \<open>Example runs with records\<close>

text \<open>Carol logs a bench press and then deletes the exercise.\<close>

definition bench_request :: record_create where
  "bench_request = \<lparr>rc_date = ''2024-01-01'', rc_exercise_id = 1, rc_weight = Finite 50,
                     rc_reps = 10, rc_sets = 3\<rparr>"

definition bench_record :: workout_record where
  "bench_record = \<lparr>rec_id = 1, rec_date = ''2024-01-01'', rec_exercise_id = Some 1,
                    rec_exercise_name = bench_press, rec_weight = Some (Finite 50),
                    rec_reps = 10, rec_sets = 3, rec_memo = None,
                    rec_volume = Some (Finite 1500), rec_user_id = 1\<rparr>"

definition logged :: db where
  "logged = after carol_seeded (commits (CreateRecord bench_request carol) carol_seeded)"

definition orphaned :: db where
  "orphaned = after logged (commits (DeleteExercise 1 carol) logged)"




text \<open>Carol asks for a record of the exercise \<open>2\<^sup>6\<^sup>3\<close>, one more than the column can hold.\<close>

definition beyond_request :: record_create where
  "beyond_request = \<lparr>rc_date = ''2024-01-03'', rc_exercise_id = 2 ^ 63,
                      rc_weight = Finite 50, rc_reps = 10, rc_sets = 3\<rparr>"

section \<open>Properties\<close>

subsection \<open>Fresh keys and lookups\<close>

lemma le_fold_max: "x \<in> set ids \<Longrightarrow> x \<le> fold max ids (a::int)"
proof (induction ids arbitrary: a)
  case Nil
  then show ?case by simp
next
  case (Cons y ys)
  have mono: "\<And>b. b \<le> fold max ys (b::int)"
  proof -
    fix b :: int show "b \<le> fold max ys b"
      by (induction ys arbitrary: b) (auto intro: order_trans[OF max.cobounded2])
  qed
  show ?case
  proof (cases "x = y")
    case True
    have "y \<le> max y a" by simp
    also have "\<dots> \<le> fold max ys (max y a)" by (rule mono)
    finally show ?thesis using True by simp
  next
    case False
    with Cons.prems have "x \<in> set ys" by simp
    then show ?thesis using Cons.IH by simp
  qed
qed

lemma next_id_fresh: "next_id ids \<notin> set ids"
proof
  assume "next_id ids \<in> set ids"
  then have "next_id ids \<le> fold max ids 0" by (rule le_fold_max)
  then show False by (simp add: next_id_def)
qed

lemma next_id_fresh_map: "x \<in> set rows \<Longrightarrow> f x \<noteq> next_id (map f rows)"
  using next_id_fresh[of "map f rows"] by (metis imageI set_map)

lemma find_SomeD: "find P xs = Some x \<Longrightarrow> x \<in> set xs \<and> P x"
  by (auto simp: find_Some_iff)

lemma foldl_add_exercise_ids:
  "distinct (map ex_id rows) \<Longrightarrow> distinct (map ex_id (foldl (add_exercise uid) rows names))"
proof (induction names arbitrary: rows)
  case Nil
  then show ?case by simp
next
  case (Cons n ns)
  have "distinct (map ex_id (add_exercise uid rows n))"
    using Cons.prems next_id_fresh[of "map ex_id rows"] by (simp add: add_exercise_def)
  then show ?case using Cons.IH by simp
qed

lemma foldl_add_exercise_append:
  "\<exists>new. foldl (add_exercise uid) rows names = rows @ new \<and> map ex_name new = names \<and>
     (\<forall>e \<in> set new. ex_user_id e = uid \<and> ex_category_id e = None)"
proof (induction names arbitrary: rows)
  case Nil
  then show ?case by simp
next
  case (Cons n ns)
  obtain new where new: "foldl (add_exercise uid) (add_exercise uid rows n) ns = add_exercise uid rows n @ new"
    "map ex_name new = ns" "\<forall>e \<in> set new. ex_user_id e = uid \<and> ex_category_id e = None"
    using Cons.IH[of "add_exercise uid rows n"] by blast
  let ?e = "\<lparr>ex_id = next_id (map ex_id rows), ex_name = n, ex_category_id = None, ex_user_id = uid\<rparr>"
  have "foldl (add_exercise uid) rows (n # ns) = rows @ (?e # new)"
    using new(1) by (simp add: add_exercise_def)
  moreover have "map ex_name (?e # new) = n # ns" using new(2) by simp
  moreover have "\<forall>e \<in> set (?e # new). ex_user_id e = uid \<and> ex_category_id e = None"
    using new(3) by simp
  ultimately show ?case by (intro exI[of _ "?e # new"]) simp
qed

subsection \<open>Every committed state is well-formed\<close>

lemma wf_register:
  assumes "wf_db d" "d' \<in> set (snd (register h uc d))"
  shows "wf_db d'"
proof (cases "find (\<lambda>u. user_email u = uc_email uc) (users d)")
  case (Some a)
  then show ?thesis using assms by (simp add: register_def)
next
  case None
  let ?uid = "next_id (map user_id (users d))"
  let ?nu = "\<lparr>user_id = ?uid, user_email = uc_email uc, user_hashed_password = h (uc_password uc)\<rparr>"
  let ?d1 = "d\<lparr>users := users d @ [?nu]\<rparr>"
  let ?d2 = "?d1\<lparr>exercises := foldl (add_exercise ?uid) (exercises d) default_exercises\<rparr>"
  have cases': "d' = ?d1 \<or> d' = ?d2"
    using assms(2) None by (auto simp: register_def Let_def)
  have w1: "wf_db ?d1"
    using assms(1) next_id_fresh[of "map user_id (users d)"] by (auto simp: wf_db_def)
  obtain new where new: "foldl (add_exercise ?uid) (exercises d) default_exercises = exercises d @ new"
    "\<forall>e \<in> set new. ex_user_id e = ?uid \<and> ex_category_id e = None"
    using foldl_add_exercise_append[of ?uid "exercises d" default_exercises] by blast
  have "distinct (map ex_id (foldl (add_exercise ?uid) (exercises d) default_exercises))"
    using assms(1) by (intro foldl_add_exercise_ids) (simp add: wf_db_def)
  then have w2: "wf_db ?d2"
    using w1 new by (auto simp: wf_db_def)
  show ?thesis using cases' w1 w2 by blast
qed

lemma wf_create_category:
  assumes "wf_db d" "u \<in> set (users d)" "d' \<in> set (snd (create_category cc u d))"
  shows "wf_db d'"
  using assms next_id_fresh[of "map cat_id (categories d)"]
  by (auto simp: wf_db_def create_category_def Let_def)

lemma map_ex_id_unlink:
  "map (ex_id \<circ> (\<lambda>ex. if P ex then ex\<lparr>ex_category_id := c\<rparr> else ex)) rows = map ex_id rows"
  by (induction rows) auto

lemma map_rec_id_orphan:
  "map (rec_id \<circ> (\<lambda>r. if P r then r\<lparr>rec_exercise_id := None\<rparr> else r)) rows = map rec_id rows"
  by (induction rows) auto

lemma wf_delete_category:
  assumes "wf_db d" "d' \<in> set (snd (delete_category i u d))"
  shows "wf_db d'"
  using assms
  by (auto simp: wf_db_def delete_category_def Let_def map_ex_id_unlink distinct_map_filter
      split: option.splits)

lemma wf_create_exercise:
  assumes "wf_db d" "u \<in> set (users d)" "d' \<in> set (snd (create_exercise ec u d))"
  shows "wf_db d'"
  using assms next_id_fresh[of "map ex_id (exercises d)"]
  by (auto simp: wf_db_def create_exercise_def Let_def)

lemma map_ex_id_update:
  "map (ex_id \<circ> (\<lambda>e. if ex_id e = ex_id x then x\<lparr>ex_category_id := c\<rparr> else e)) rows = map ex_id rows"
  by (induction rows) auto

lemma wf_update_exercise:
  assumes "wf_db d" "d' \<in> set (snd (update_exercise i eu u d))"
  shows "wf_db d'"
proof (cases "find (\<lambda>e. ex_id e = i \<and> ex_user_id e = user_id u) (exercises d)")
  case None
  then show ?thesis using assms by (simp add: update_exercise_def)
next
  case (Some x)
  then have x: "x \<in> set (exercises d)" by (simp add: find_SomeD)
  then have "ex_user_id x \<in> user_id ` set (users d)"
    using assms(1) by (simp add: wf_db_def)
  then show ?thesis
    using assms Some by (auto simp: wf_db_def update_exercise_def Let_def map_ex_id_update)
qed

lemma wf_delete_exercise:
  assumes "wf_db d" "d' \<in> set (snd (delete_exercise i u d))"
  shows "wf_db d'"
  using assms
  by (auto simp: wf_db_def delete_exercise_def Let_def map_rec_id_orphan distinct_map_filter
      split: option.splits if_splits)

lemma wf_create_record:
  assumes "wf_db d" "u \<in> set (users d)" "d' \<in> set (snd (create_record rc u d))"
  shows "wf_db d'"
  using assms next_id_fresh[of "map rec_id (workout_records d)"]
  by (auto simp: wf_db_def create_record_def Let_def split: option.splits if_splits)

lemma wf_delete_record:
  assumes "wf_db d" "d' \<in> set (snd (delete_record i u d))"
  shows "wf_db d'"
  using assms
  by (auto simp: wf_db_def delete_record_def distinct_map_filter split: option.splits if_splits)

lemma wf_commits:
  assumes "wf_db d" "authenticated req d" "d' \<in> set (commits req d)"
  shows "wf_db d'"
  using assms
  by (cases req)
     (auto intro: wf_register wf_create_category wf_delete_category wf_create_exercise
        wf_update_exercise wf_delete_exercise wf_create_record wf_delete_record)

lemma wf_empty_db: "wf_db empty_db"
  by (simp add: wf_db_def empty_db_def)

lemma reachable_under_wf: "reachable_under G d \<Longrightarrow> wf_db d"
  by (induction rule: reachable_under.induct) (auto intro: wf_empty_db wf_commits)

subsection \<open>What a request does to the stored workout records\<close>

lemma distinct_key_eq:
  "distinct (map f xs) \<Longrightarrow> x \<in> set xs \<Longrightarrow> y \<in> set xs \<Longrightarrow> f x = f y \<Longrightarrow> x = y"
  by (meson distinct_map inj_onD)

lemma commits_workout_records:
  assumes "d' \<in> set (commits req d)"
  shows "workout_records d' = workout_records d \<or>
    (\<exists>rc u r. req = CreateRecord rc u \<and>
       rec_id r = next_id (map rec_id (workout_records d)) \<and>
       workout_records d' = workout_records d @ [r]) \<or>
    (\<exists>u x. req = DeleteRecord (rec_id x) u \<and> x \<in> set (workout_records d) \<and>
       rec_user_id x = user_id u \<and>
       workout_records d' = filter (\<lambda>r. rec_id r \<noteq> rec_id x) (workout_records d)) \<or>
    (\<exists>u e. req = DeleteExercise (ex_id e) u \<and> e \<in> set (exercises d) \<and>
       workout_records d' =
         map (\<lambda>r. if rec_exercise_id r = Some (ex_id e) then r\<lparr>rec_exercise_id := None\<rparr> else r)
           (workout_records d))"
proof (cases req)
  case (Register h uc)
  then show ?thesis using assms by (auto simp: register_def Let_def split: option.splits)
next
  case (CreateCategory cc u)
  then show ?thesis using assms by (auto simp: create_category_def Let_def)
next
  case (DeleteCategory i u)
  then show ?thesis using assms by (auto simp: delete_category_def Let_def split: option.splits)
next
  case (CreateExercise ec u)
  then show ?thesis using assms by (auto simp: create_exercise_def Let_def)
next
  case (UpdateExercise i eu u)
  then show ?thesis using assms by (auto simp: update_exercise_def Let_def split: option.splits)
next
  case (DeleteExercise i u)
  then show ?thesis using assms
    by (auto simp: delete_exercise_def Let_def split: option.splits dest!: find_SomeD)
next
  case (CreateRecord rc u)
  then show ?thesis using assms
    by (auto simp: create_record_def Let_def split: option.splits if_splits)
next
  case (DeleteRecord i u)
  then show ?thesis using assms
    by (auto simp: delete_record_def split: option.splits if_splits dest!: find_SomeD)
qed (use assms in auto)

lemma record_frame:
  assumes "wf_db d" "d' \<in> set (commits req d)"
    and "r \<in> set (workout_records d)" "r' \<in> set (workout_records d')" "rec_id r' = rec_id r"
  shows "r' = r\<lparr>rec_exercise_id := rec_exercise_id r'\<rparr> \<and>
         (rec_exercise_id r' = rec_exercise_id r \<or> rec_exercise_id r' = None)"
proof -
  have dist: "distinct (map rec_id (workout_records d))"
    using assms(1) by (simp add: wf_db_def)
  note same = distinct_key_eq[OF dist]
  from commits_workout_records[OF assms(2)] show ?thesis
  proof (elim disjE exE conjE)
    assume "workout_records d' = workout_records d"
    then have "r' = r" using assms(3-5) same by simp
    then show ?thesis by simp
  next
    fix x
    assume create: "rec_id x = next_id (map rec_id (workout_records d))"
      "workout_records d' = workout_records d @ [x]"
    have "r' \<noteq> x"
      using next_id_fresh_map[OF assms(3), of rec_id] assms(5) create(1) by auto
    then have "r' = r" using assms(3-5) same create(2) by simp
    then show ?thesis by simp
  next
    fix x
    assume "workout_records d' = filter (\<lambda>r. rec_id r \<noteq> rec_id x) (workout_records d)"
    then have "r' = r" using assms(3-5) same by simp
    then show ?thesis by simp
  next
    fix e
    assume "workout_records d' =
         map (\<lambda>r. if rec_exercise_id r = Some (ex_id e) then r\<lparr>rec_exercise_id := None\<rparr> else r)
           (workout_records d)"
    then obtain r0 where r0: "r0 \<in> set (workout_records d)"
      "r' = (if rec_exercise_id r0 = Some (ex_id e) then r0\<lparr>rec_exercise_id := None\<rparr> else r0)"
      using assms(4) by auto
    then have "rec_id r0 = rec_id r" using assms(5) by (simp split: if_splits)
    then have "r0 = r" using same r0(1) assms(3) by simp
    then show ?thesis using r0(2) by (simp split: if_splits)
  qed
qed

subsection \<open>Evaluating float arithmetic\<close>

lemma bit_length_0: "bit_length 0 = 0"
  by simp

lemma bit_length_1: "bit_length 1 = 1" "bit_length (Suc 0) = 1"
  by simp_all

lemma bit_length_numeral: "bit_length (numeral k) = Suc (bit_length (numeral k div 2))"
  by (subst bit_length.simps) simp

lemma floor_rat_numeral: "\<lfloor>numeral a / numeral b :: rat\<rfloor> = numeral a div numeral b"
  using floor_divide_of_int_eq[of "numeral a" "numeral b", where ?'a = rat] by simp

lemma ceiling_rat_numeral: "\<lceil>numeral a / numeral b :: rat\<rceil> = - (- numeral a div numeral b)"
  using ceiling_divide_eq_div[of "numeral a" "numeral b", where ?'a = rat] by simp

lemmas float_eval = float_of_int_def round_double_def ilog2_def pow2_def round_half_even_def
  Let_def bit_length_0 bit_length_1 bit_length_numeral floor_rat_numeral ceiling_rat_numeral

lemma bench_volume:
  "float_mul (float_mul (Finite 50) (float_of_int 10)) (float_of_int 3) = Finite 1500"
  by (simp add: float_eval del: bit_length.simps)

text \<open>
  The floats nearest to 0.3 and to 4.35, written as the fractions they are: 0.3 * 10 is 3,
  4.35 * 100 is 434.99999999999994, and \<open>10\<^sup>1\<^sup>6\<close> + 1 + 1 is \<open>10\<^sup>1\<^sup>6\<close>.
\<close>

lemma float_examples:
  "float_mul (Finite (5404319552844595 / 18014398509481984)) (float_of_int 10) = Finite 3"
  "float_mul (Finite (2448832297382707 / 562949953421312)) (float_of_int 100) =
     Finite (7652600929320959 / 17592186044416)"
  "float_add (float_add (Finite (10 ^ 16)) (Finite 1)) (Finite 1) = Finite (10 ^ 16)"
  by (simp_all add: float_eval del: bit_length.simps)

declare bit_length.simps [simp del]

lemma bit_length_upper: "n < 2 ^ bit_length n"
proof (induction n rule: bit_length.induct)
  case (1 n)
  show ?case
  proof (cases "n = 0")
    case True
    then show ?thesis by (simp add: bit_length.simps)
  next
    case False
    then have "n div 2 < 2 ^ bit_length (n div 2)" using 1 by simp
    then have "n < 2 * 2 ^ bit_length (n div 2)" by linarith
    then show ?thesis using False by (subst bit_length.simps) simp
  qed
qed

lemma bit_length_lower: "0 < n \<Longrightarrow> 2 ^ (bit_length n - 1) \<le> n"
proof (induction n rule: bit_length.induct)
  case (1 n)
  show ?case
  proof (cases "n div 2 = 0")
    case True
    then have "n = 1" using "1.prems" by linarith
    then show ?thesis by (simp add: bit_length_1)
  next
    case False
    then have pos: "0 < n div 2" by simp
    then have ih: "2 ^ (bit_length (n div 2) - 1) \<le> n div 2" using 1 by simp
    have "0 < bit_length (n div 2)" using pos by (subst bit_length.simps) simp
    then have "bit_length n - 1 = Suc (bit_length (n div 2) - 1)"
      using "1.prems" by (subst bit_length.simps) simp
    then have "(2::nat) ^ (bit_length n - 1) = 2 * 2 ^ (bit_length (n div 2) - 1)" by simp
    also have "\<dots> \<le> 2 * (n div 2)" using ih by simp
    also have "\<dots> \<le> n" by simp
    finally show ?thesis .
  qed
qed

lemma ilog2_bounds:
  assumes "1 \<le> a"
  shows "0 \<le> ilog2 a" and "2 ^ nat (ilog2 a) \<le> a" and "a < 2 ^ nat (ilog2 a + 1)"
proof -
  let ?n = "nat \<lfloor>a\<rfloor>"
  have fl: "1 \<le> \<lfloor>a\<rfloor>" using assms by simp
  then have pos: "0 < ?n" by simp
  have bl: "0 < bit_length ?n" using pos by (subst bit_length.simps) simp
  have il: "ilog2 a = int (bit_length ?n) - 1" using assms by (simp add: ilog2_def)
  show "0 \<le> ilog2 a" using il bl by simp
  have n1: "nat (ilog2 a) = bit_length ?n - 1" using il bl by simp
  have n2: "nat (ilog2 a + 1) = bit_length ?n" using il by simp
  have "(2::nat) ^ (bit_length ?n - 1) \<le> ?n" using pos by (rule bit_length_lower)
  then have "of_nat ((2::nat) ^ (bit_length ?n - 1)) \<le> (of_nat ?n :: rat)"
    by (simp only: of_nat_le_iff)
  also have "(of_nat ?n :: rat) = of_int \<lfloor>a\<rfloor>" using fl by simp
  also have "\<dots> \<le> a" by simp
  finally show "2 ^ nat (ilog2 a) \<le> a" unfolding n1 by simp
  have "?n < 2 ^ bit_length ?n" by (rule bit_length_upper)
  then have "int ?n + 1 \<le> 2 ^ bit_length ?n"
    by (metis of_nat_less_iff of_nat_numeral of_nat_power zless_imp_add1_zle)
  then have "\<lfloor>a\<rfloor> + 1 \<le> 2 ^ bit_length ?n" using fl by simp
  then have "of_int (\<lfloor>a\<rfloor> + 1) \<le> (of_int (2 ^ bit_length ?n) :: rat)"
    by (simp only: of_int_le_iff)
  moreover have "a < of_int (\<lfloor>a\<rfloor> + 1)" by linarith
  ultimately show "a < 2 ^ nat (ilog2 a + 1)" unfolding n2 by simp
qed

lemma round_half_even_ge: "of_int k \<le> x \<Longrightarrow> k \<le> round_half_even x"
proof -
  assume "of_int k \<le> x"
  then have "k \<le> \<lfloor>x\<rfloor>" by (simp add: le_floor_iff)
  then show ?thesis by (auto simp: round_half_even_def Let_def)
qed

text \<open>A result of magnitude \<open>2\<^sup>1\<^sup>0\<^sup>2\<^sup>4\<close> or more is an infinity.\<close>

lemma round_double_overflow:
  assumes "2 ^ 1024 \<le> q"
  shows "round_double q = PosInf"
proof -
  have q1: "1 \<le> q" and q0: "0 < q" and qa: "\<bar>q\<bar> = q"
    using assms by (simp_all add: order_trans[OF _ assms] less_le_trans[OF _ assms])
  let ?k = "ilog2 q"
  note b = ilog2_bounds[OF q1]
  have "(2::rat) ^ 1024 < 2 ^ nat (?k + 1)" using assms b(3) by simp
  then have "1024 < nat (?k + 1)" by (simp only: power_strict_increasing_iff one_less_numeral_iff semiring_norm)
  then have k: "1024 \<le> ?k" by simp
  let ?e = "?k - 52"
  have e: "max (?k - 52) (- 1074) = ?e" and e0: "0 \<le> ?e" using k by simp_all
  have pe: "pow2 ?e = 2 ^ nat ?e" using e0 by (simp add: pow2_def)
  have split: "(2::rat) ^ nat ?k = 2 ^ 52 * 2 ^ nat ?e"
  proof -
    have "nat ?k = 52 + nat ?e" using k by simp
    then show ?thesis by (simp only: power_add)
  qed
  let ?m = "round_half_even (q / pow2 ?e)"
  have "(2::rat) ^ 52 * 2 ^ nat ?e \<le> q" using b(2) split by simp
  then have "(2::rat) ^ 52 \<le> q / 2 ^ nat ?e" by (simp add: pos_le_divide_eq)
  then have "of_int (2 ^ 52) \<le> q / pow2 ?e" unfolding pe by simp
  then have m: "2 ^ 52 \<le> ?m" by (rule round_half_even_ge)
  then have "(of_int (2 ^ 52) :: rat) \<le> of_int ?m" by (simp only: of_int_le_iff)
  then have "(2::rat) ^ 52 * 2 ^ nat ?e \<le> of_int ?m * 2 ^ nat ?e"
    by (intro mult_right_mono) simp_all
  then have "(2::rat) ^ nat ?k \<le> of_int ?m * pow2 ?e" using split pe by simp
  moreover have "(2::rat) ^ 1024 \<le> 2 ^ nat ?k" using k by (intro power_increasing) simp_all
  ultimately have v: "pow2 1024 \<le> of_int ?m * pow2 ?e" by (simp add: pow2_def)
  show ?thesis
    using q0 v by (simp add: round_double_def Let_def qa e)
qed


text \<open>The float nearest to \<open>10\<^sup>3\<^sup>0\<^sup>8\<close>, times ten, is infinite.\<close>

lemma float_overflow_example:
  "float_mul (Finite 100000000000000001097906362944045541740492309677311846336810682903157585404911491537163328978494688899061249669721172515611590283743140088328307009198146046031271664502933027185697489699588559043338384466165001178426897626212945177628091195786707458122783970171784415105291802893207873272974885715430223118336) (float_of_int 10) = PosInf"
proof -
  have t: "float_of_int 10 = Finite 10"
    by (simp add: float_eval del: bit_length.simps)
  have "(2::rat) ^ 1024 \<le> 100000000000000001097906362944045541740492309677311846336810682903157585404911491537163328978494688899061249669721172515611590283743140088328307009198146046031271664502933027185697489699588559043338384466165001178426897626212945177628091195786707458122783970171784415105291802893207873272974885715430223118336 * 10"
    by simp
  then show ?thesis
    unfolding t by (simp only: float_mul.simps round_double_overflow)
qed

subsection \<open>Claims about single handlers\<close>

lemma wf_gym_db: "wf_db gym_db"
  by (simp add: wf_db_def gym_db_def alice_def bob_def)

text \<open>
  Claim C6. Registering with an email that a stored user already has raises the
  \<^verbatim>\<open>HTTPException\<close> with status 400 before any commit: no user row and no exercise row is
  written, and the stored state is the one before the request.
\<close>

theorem register_duplicate_email:
  assumes "u \<in> set (users d)" and "user_email u = uc_email uc"
  shows "register h uc d = (Inl (HTTPException 400 detail_email_in_use), []) \<and>
         commits (Register h uc) d = [] \<and> after d (commits (Register h uc) d) = d"
proof -
  have "find (\<lambda>u. user_email u = uc_email uc) (users d) \<noteq> None"
    using assms by (auto simp: find_None_iff)
  then have "register h uc d = (Inl (HTTPException 400 detail_email_in_use), [])"
    by (auto simp: register_def)
  then show ?thesis by (simp add: after_def)
qed

theorem register_duplicate_email_witness:
  "alice \<in> set (users gym_db) \<and>
   user_email alice = uc_email \<lparr>uc_email = ''alice@example.com'', uc_password = ''secret''\<rparr> \<and>
   register (\<lambda>p. p) \<lparr>uc_email = ''alice@example.com'', uc_password = ''secret''\<rparr> gym_db =
     (Inl (HTTPException 400 detail_email_in_use), []) \<and>
   after gym_db
     (commits (Register (\<lambda>p. p) \<lparr>uc_email = ''alice@example.com'', uc_password = ''secret''\<rparr>)
        gym_db) = gym_db"
proof -
  have m: "alice \<in> set (users gym_db)" by (simp add: gym_db_def)
  have e: "user_email alice = uc_email \<lparr>uc_email = ''alice@example.com'', uc_password = ''secret''\<rparr>"
    by (simp add: alice_def)
  show ?thesis using m e register_duplicate_email[OF m e, of "\<lambda>p. p"]
    by (simp add: after_def)
qed

text \<open>
  An exercise id outside the range of the column is an id that no exercise carries, and
  yet the request does not end with 404: the lookup raises in the driver.
\<close>

theorem create_record_beyond_range:
  "rc_exercise_id beyond_request = 2 ^ 63 \<and>
   map ex_id (exercises carol_seeded) = [1, 2, 3, 4, 5, 6] \<and>
   create_record beyond_request carol carol_seeded = (Inl OverflowError, []) \<and>
   fst (create_record beyond_request carol carol_seeded)
     \<noteq> Inl (HTTPException 404 detail_exercise_not_found)"
proof -
  have i: "rc_exercise_id beyond_request = 2 ^ 63"
    by (simp add: beyond_request_def)
  then have "\<not> in_int64 (rc_exercise_id beyond_request)"
    by (simp add: in_int64_def)
  then have run: "create_record beyond_request carol carol_seeded = (Inl OverflowError, [])"
    by (simp add: create_record_def)
  have ids: "map ex_id (exercises carol_seeded) = [1, 2, 3, 4, 5, 6]"
    by (simp add: carol_seeded_def carol_only_def)
  have "fst (create_record beyond_request carol carol_seeded)
      \<noteq> Inl (HTTPException 404 detail_exercise_not_found)"
    by (simp add: run)
  with i ids run show ?thesis by (intro conjI)
qed

text \<open>
  Claim C5, as the code has it. For an exercise id that the id column can hold,
  \<open>create_record\<close> raises the 404 exception exactly when no exercise with that id is owned
  by the caller, whether the id is unknown or belongs to someone else. When it raises the
  404 exception, nothing is committed and the stored records are unchanged.
\<close>

theorem create_record_not_found_iff:
  assumes "in_int64 (rc_exercise_id rc)"
  shows
    "(fst (create_record rc u d) = Inl (HTTPException 404 detail_exercise_not_found)) =
       (\<not> (\<exists>e \<in> set (exercises d). ex_id e = rc_exercise_id rc \<and> ex_user_id e = user_id u)) \<and>
     (fst (create_record rc u d) = Inl (HTTPException 404 detail_exercise_not_found) \<longrightarrow>
        create_record rc u d = (Inl (HTTPException 404 detail_exercise_not_found), []) \<and>
        commits (CreateRecord rc u) d = [] \<and>
        after d (commits (CreateRecord rc u) d) = d \<and>
        workout_records (after d (commits (CreateRecord rc u) d)) = workout_records d)"
proof (cases "find (\<lambda>e. ex_id e = rc_exercise_id rc \<and> ex_user_id e = user_id u) (exercises d)")
  case None
  then have "\<not> (\<exists>e \<in> set (exercises d). ex_id e = rc_exercise_id rc \<and> ex_user_id e = user_id u)"
    by (auto simp: find_None_iff)
  then show ?thesis using None assms by (simp add: create_record_def after_def)
next
  case (Some x)
  then have ex: "\<exists>e \<in> set (exercises d). ex_id e = rc_exercise_id rc \<and> ex_user_id e = user_id u"
    using find_SomeD[OF Some] by blast
  have "fst (create_record rc u d) \<noteq> Inl (HTTPException 404 detail_exercise_not_found)"
    using Some assms
    by (auto simp: create_record_def Let_def response_error_def split: option.splits if_splits)
  then show ?thesis using ex by simp
qed

theorem create_record_not_found_iff_witness:
  "in_int64 1 \<and> in_int64 99 \<and>
   (\<exists>e \<in> set (exercises gym_db). ex_id e = 1 \<and> ex_user_id e = user_id alice) \<and>
   \<not> (\<exists>e \<in> set (exercises gym_db). ex_id e = 1 \<and> ex_user_id e = user_id bob) \<and>
   \<not> (\<exists>e \<in> set (exercises gym_db). ex_id e = 99 \<and> ex_user_id e = user_id alice) \<and>
   fst (create_record \<lparr>rc_date = ''2024-02-01'', rc_exercise_id = 1, rc_weight = Finite 50,
              rc_reps = 10, rc_sets = 3\<rparr> alice gym_db)
     \<noteq> Inl (HTTPException 404 detail_exercise_not_found) \<and>
   create_record \<lparr>rc_date = ''2024-02-01'', rc_exercise_id = 1, rc_weight = Finite 50,
              rc_reps = 10, rc_sets = 3\<rparr> bob gym_db =
     (Inl (HTTPException 404 detail_exercise_not_found), []) \<and>
   create_record \<lparr>rc_date = ''2024-02-01'', rc_exercise_id = 99, rc_weight = Finite 50,
              rc_reps = 10, rc_sets = 3\<rparr> alice gym_db =
     (Inl (HTTPException 404 detail_exercise_not_found), []) \<and>
   workout_records (after gym_db (commits (CreateRecord
       \<lparr>rc_date = ''2024-02-01'', rc_exercise_id = 99, rc_weight = Finite 50,
              rc_reps = 10, rc_sets = 3\<rparr> alice) gym_db)) = workout_records gym_db"
proof -
  let ?rc = "\<lambda>i. \<lparr>rc_date = ''2024-02-01'', rc_exercise_id = i, rc_weight = Finite 50,
              rc_reps = 10, rc_sets = 3\<rparr>"
  have r: "in_int64 1" "in_int64 99"
    by (simp_all add: in_int64_def)
  have a: "\<exists>e \<in> set (exercises gym_db). ex_id e = 1 \<and> ex_user_id e = user_id alice"
    by (simp add: gym_db_def alice_def)
  have b: "\<not> (\<exists>e \<in> set (exercises gym_db). ex_id e = 1 \<and> ex_user_id e = user_id bob)"
    by (simp add: gym_db_def bob_def)
  have c: "\<not> (\<exists>e \<in> set (exercises gym_db). ex_id e = 99 \<and> ex_user_id e = user_id alice)"
    by (simp add: gym_db_def alice_def)
  have 1: "fst (create_record (?rc 1) alice gym_db)
      \<noteq> Inl (HTTPException 404 detail_exercise_not_found)"
    using create_record_not_found_iff[of "?rc 1" alice gym_db] a r by simp
  have 2: "create_record (?rc 1) bob gym_db =
      (Inl (HTTPException 404 detail_exercise_not_found), [])"
    using create_record_not_found_iff[of "?rc 1" bob gym_db] b r by simp
  have 3: "create_record (?rc 99) alice gym_db =
      (Inl (HTTPException 404 detail_exercise_not_found), [])"
    and 4: "workout_records (after gym_db (commits (CreateRecord (?rc 99) alice) gym_db)) =
      workout_records gym_db"
    using create_record_not_found_iff[of "?rc 99" alice gym_db] c r by (simp_all add: after_def)
  show ?thesis by (intro conjI) (rule r a b c 1 2 3 4)+
qed

subsection \<open>Ownership as a filter\<close>

lemma find_none_of_other_owner:
  assumes "distinct (map key rows)" "x \<in> set rows" "key x = k" "owner x \<noteq> uid"
  shows "find (\<lambda>y. key y = k \<and> owner y = uid) rows = None"
proof -
  have "\<not> (\<exists>y \<in> set rows. key y = k \<and> owner y = uid)"
  proof
    assume "\<exists>y \<in> set rows. key y = k \<and> owner y = uid"
    then obtain y where y: "y \<in> set rows" "key y = k" "owner y = uid" by blast
    then have "y = x" using distinct_key_eq[OF assms(1) y(1) assms(2)] assms(3) by simp
    then show False using y(3) assms(4) by simp
  qed
  then show ?thesis by (simp add: find_None_iff)
qed

text \<open>
  Claim C1. In a well-formed database, let \<open>u1\<close> and \<open>u2\<close> be users with different ids.
  Each handler that is addressed by an id, called by \<open>u1\<close> with the id of a row that \<open>u2\<close>
  owns, raises the 404 exception and commits nothing; that is the very outcome it has for
  an id that no row of the table carries (the last three conjuncts). The ids are those
  that the id column can hold, as every stored key is.
\<close>

theorem other_owner_not_found:
  assumes "wf_db d" and "user_id u1 \<noteq> user_id u2"
  shows
    "(\<forall>c \<in> set (categories d). cat_user_id c = user_id u2 \<longrightarrow>
        delete_category (cat_id c) u1 d = (Inl (HTTPException 404 detail_category_not_found), [])) \<and>
     (\<forall>e \<in> set (exercises d). ex_user_id e = user_id u2 \<longrightarrow>
        update_exercise (ex_id e) eu u1 d = (Inl (HTTPException 404 detail_exercise_not_found), []) \<and>
        delete_exercise (ex_id e) u1 d = (Inl (HTTPException 404 detail_exercise_not_found), []) \<and>
        (rc_exercise_id rc = ex_id e \<and> in_int64 (ex_id e) \<longrightarrow>
           create_record rc u1 d = (Inl (HTTPException 404 detail_exercise_not_found), []))) \<and>
     (\<forall>r \<in> set (workout_records d). rec_user_id r = user_id u2 \<and> in_int64 (rec_id r) \<longrightarrow>
        delete_record (rec_id r) u1 d = (Inl (HTTPException 404 detail_record_not_found), [])) \<and>
     (in_int64 i \<and> i \<notin> cat_id ` set (categories d) \<longrightarrow>
        delete_category i u1 d = (Inl (HTTPException 404 detail_category_not_found), [])) \<and>
     (in_int64 i \<and> i \<notin> ex_id ` set (exercises d) \<longrightarrow>
        update_exercise i eu u1 d = (Inl (HTTPException 404 detail_exercise_not_found), []) \<and>
        delete_exercise i u1 d = (Inl (HTTPException 404 detail_exercise_not_found), []) \<and>
        (rc_exercise_id rc = i \<longrightarrow>
           create_record rc u1 d = (Inl (HTTPException 404 detail_exercise_not_found), []))) \<and>
     (in_int64 i \<and> i \<notin> rec_id ` set (workout_records d) \<longrightarrow>
        delete_record i u1 d = (Inl (HTTPException 404 detail_record_not_found), []))"
proof -
  have dc: "distinct (map cat_id (categories d))" and de: "distinct (map ex_id (exercises d))"
    and dr: "distinct (map rec_id (workout_records d))"
    using assms(1) by (simp_all add: wf_db_def)
  have c: "find (\<lambda>y. cat_id y = cat_id c \<and> cat_user_id y = user_id u1) (categories d) = None"
    if "c \<in> set (categories d)" "cat_user_id c = user_id u2" for c
    using find_none_of_other_owner[OF dc that(1) refl, of cat_user_id "user_id u1"] that(2) assms(2)
    by simp
  have e: "find (\<lambda>y. ex_id y = ex_id e \<and> ex_user_id y = user_id u1) (exercises d) = None"
    if "e \<in> set (exercises d)" "ex_user_id e = user_id u2" for e
    using find_none_of_other_owner[OF de that(1) refl, of ex_user_id "user_id u1"] that(2) assms(2)
    by simp
  have r: "find (\<lambda>y. rec_id y = rec_id r \<and> rec_user_id y = user_id u1) (workout_records d) = None"
    if "r \<in> set (workout_records d)" "rec_user_id r = user_id u2" for r
    using find_none_of_other_owner[OF dr that(1) refl, of rec_user_id "user_id u1"] that(2) assms(2)
    by simp
  have c0: "find (\<lambda>y. cat_id y = i \<and> cat_user_id y = user_id u1) (categories d) = None"
    if "i \<notin> cat_id ` set (categories d)"
    using that by (auto simp: find_None_iff)
  have e0: "find (\<lambda>y. ex_id y = i \<and> ex_user_id y = user_id u1) (exercises d) = None"
    if "i \<notin> ex_id ` set (exercises d)"
    using that by (auto simp: find_None_iff)
  have r0: "find (\<lambda>y. rec_id y = i \<and> rec_user_id y = user_id u1) (workout_records d) = None"
    if "i \<notin> rec_id ` set (workout_records d)"
    using that by (auto simp: find_None_iff)
  show ?thesis
    by (intro conjI ballI impI; (elim conjE)?)
       (simp_all add: delete_category_def update_exercise_def delete_exercise_def
          create_record_def delete_record_def c e r c0 e0 r0)
qed

theorem other_owner_not_found_witness:
  "wf_db gym_db \<and> user_id bob \<noteq> user_id alice \<and> in_int64 1 \<and> in_int64 99 \<and>
   (\<exists>c \<in> set (categories gym_db). cat_id c = 1 \<and> cat_user_id c = user_id alice) \<and>
   (\<exists>e \<in> set (exercises gym_db). ex_id e = 1 \<and> ex_user_id e = user_id alice) \<and>
   (\<exists>r \<in> set (workout_records gym_db). rec_id r = 1 \<and> rec_user_id r = user_id alice) \<and>
   delete_category 1 bob gym_db = (Inl (HTTPException 404 detail_category_not_found), []) \<and>
   update_exercise 1 \<lparr>eu_category_id = Some 2\<rparr> bob gym_db =
     (Inl (HTTPException 404 detail_exercise_not_found), []) \<and>
   delete_exercise 1 bob gym_db = (Inl (HTTPException 404 detail_exercise_not_found), []) \<and>
   create_record \<lparr>rc_date = ''2024-02-01'', rc_exercise_id = 1, rc_weight = Finite 50, rc_reps = 10,
       rc_sets = 3\<rparr> bob gym_db = (Inl (HTTPException 404 detail_exercise_not_found), []) \<and>
   delete_record 1 bob gym_db = (Inl (HTTPException 404 detail_record_not_found), []) \<and>
   delete_category 99 bob gym_db = (Inl (HTTPException 404 detail_category_not_found), []) \<and>
   update_exercise 99 \<lparr>eu_category_id = Some 2\<rparr> bob gym_db =
     (Inl (HTTPException 404 detail_exercise_not_found), []) \<and>
   delete_exercise 99 bob gym_db = (Inl (HTTPException 404 detail_exercise_not_found), []) \<and>
   create_record \<lparr>rc_date = ''2024-02-01'', rc_exercise_id = 99, rc_weight = Finite 50, rc_reps = 10,
       rc_sets = 3\<rparr> bob gym_db = (Inl (HTTPException 404 detail_exercise_not_found), []) \<and>
   delete_record 99 bob gym_db = (Inl (HTTPException 404 detail_record_not_found), [])"
proof -
  have ne: "user_id bob \<noteq> user_id alice" by (simp add: alice_def bob_def)
  note own = other_owner_not_found[OF wf_gym_db ne, of "\<lparr>eu_category_id = Some 2\<rparr>"
      "\<lparr>rc_date = ''2024-02-01'', rc_exercise_id = 1, rc_weight = Finite 50, rc_reps = 10, rc_sets = 3\<rparr>" 99]
  note none = other_owner_not_found[OF wf_gym_db ne, of "\<lparr>eu_category_id = Some 2\<rparr>"
      "\<lparr>rc_date = ''2024-02-01'', rc_exercise_id = 99, rc_weight = Finite 50, rc_reps = 10, rc_sets = 3\<rparr>" 99]
  have rows:
    "\<lparr>cat_id = 1, cat_name = ''legs'', cat_user_id = 1\<rparr> \<in> set (categories gym_db)"
    "\<lparr>ex_id = 1, ex_name = ''squat'', ex_category_id = Some 1, ex_user_id = 1\<rparr>
       \<in> set (exercises gym_db)"
    "\<lparr>rec_id = 1, rec_date = ''2024-01-01'', rec_exercise_id = Some 1,
          rec_exercise_name = ''squat'', rec_weight = Some (Finite 50), rec_reps = 10,
          rec_sets = 3, rec_memo = None, rec_volume = Some (Finite 1500), rec_user_id = 1\<rparr>
       \<in> set (workout_records gym_db)"
    by (simp_all add: gym_db_def)
  have absent: "99 \<notin> cat_id ` set (categories gym_db)" "99 \<notin> ex_id ` set (exercises gym_db)"
    "99 \<notin> rec_id ` set (workout_records gym_db)"
    by (simp_all add: gym_db_def)
  have a1: "user_id alice = 1" by (simp add: alice_def)
  have rg: "in_int64 1" "in_int64 99" by (simp_all add: in_int64_def)
  have c: "delete_category 1 bob gym_db = (Inl (HTTPException 404 detail_category_not_found), [])"
    using own[THEN conjunct1, THEN bspec, OF rows(1)] a1 by simp
  have e: "update_exercise 1 \<lparr>eu_category_id = Some 2\<rparr> bob gym_db =
        (Inl (HTTPException 404 detail_exercise_not_found), []) \<and>
      delete_exercise 1 bob gym_db = (Inl (HTTPException 404 detail_exercise_not_found), []) \<and>
      create_record \<lparr>rc_date = ''2024-02-01'', rc_exercise_id = 1, rc_weight = Finite 50, rc_reps = 10,
        rc_sets = 3\<rparr> bob gym_db = (Inl (HTTPException 404 detail_exercise_not_found), [])"
    using own[THEN conjunct2, THEN conjunct1, THEN bspec, OF rows(2)] a1 rg by simp
  have r: "delete_record 1 bob gym_db = (Inl (HTTPException 404 detail_record_not_found), [])"
    using own[THEN conjunct2, THEN conjunct2, THEN conjunct1, THEN bspec, OF rows(3)] a1 rg by simp
  have n: "delete_category 99 bob gym_db = (Inl (HTTPException 404 detail_category_not_found), []) \<and>
      update_exercise 99 \<lparr>eu_category_id = Some 2\<rparr> bob gym_db =
        (Inl (HTTPException 404 detail_exercise_not_found), []) \<and>
      delete_exercise 99 bob gym_db = (Inl (HTTPException 404 detail_exercise_not_found), []) \<and>
      create_record \<lparr>rc_date = ''2024-02-01'', rc_exercise_id = 99, rc_weight = Finite 50, rc_reps = 10,
        rc_sets = 3\<rparr> bob gym_db = (Inl (HTTPException 404 detail_exercise_not_found), []) \<and>
      delete_record 99 bob gym_db = (Inl (HTTPException 404 detail_record_not_found), [])"
    using none absent rg by simp
  have ex: "(\<exists>c \<in> set (categories gym_db). cat_id c = 1 \<and> cat_user_id c = user_id alice) \<and>
   (\<exists>e \<in> set (exercises gym_db). ex_id e = 1 \<and> ex_user_id e = user_id alice) \<and>
   (\<exists>r \<in> set (workout_records gym_db). rec_id r = 1 \<and> rec_user_id r = user_id alice)"
    by (simp add: gym_db_def alice_def)
  show ?thesis using wf_gym_db ne rg ex c e r n by (intro conjI) simp_all
qed

subsection \<open>Deleting a category\<close>

lemma delete_category_found:
  assumes "find (\<lambda>c. cat_id c = i \<and> cat_user_id c = user_id u) (categories d) = Some x"
  shows "delete_category i u d =
    (Inr deleted_message,
     [d\<lparr>exercises := map (\<lambda>ex. if ex_category_id ex = Some i
                                 then ex\<lparr>ex_category_id := None\<rparr> else ex) (exercises d),
        categories := filter (\<lambda>c. cat_id c \<noteq> i) (categories d)\<rparr>])"
proof -
  have "cat_id x = i" using find_SomeD[OF assms] by simp
  then show ?thesis using assms by (simp add: delete_category_def Let_def)
qed

lemma delete_category_commits_le_1: "length (snd (delete_category i u d)) \<le> 1"
  by (simp add: delete_category_def Let_def split: option.splits)

text \<open>
  Claim C2. When the caller owns the category, \<open>delete_category\<close> succeeds with exactly
  one commit, and the committed state holds both effects: every exercise that referred to
  the category has \<open>category_id\<close> null and is otherwise the same row, every other exercise
  is untouched, no exercise row is added or removed, and the category is gone from the
  table and so from \<open>get_categories\<close>. With one commit at most (none when it raises), the
  stored state is either the old one or the one with both effects.
\<close>

theorem delete_category_unlinks_and_deletes:
  assumes "c \<in> set (categories d)" and "cat_user_id c = user_id u"
  shows "\<exists>d'. delete_category (cat_id c) u d = (Inr deleted_message, [d']) \<and>
      (\<forall>e \<in> set (exercises d). ex_category_id e = Some (cat_id c) \<longrightarrow>
          e\<lparr>ex_category_id := None\<rparr> \<in> set (exercises d')) \<and>
      (\<forall>e \<in> set (exercises d). ex_category_id e \<noteq> Some (cat_id c) \<longrightarrow> e \<in> set (exercises d')) \<and>
      (\<forall>e \<in> set (exercises d'). ex_category_id e \<noteq> Some (cat_id c)) \<and>
      map ex_id (exercises d') = map ex_id (exercises d) \<and>
      length (filter (\<lambda>e. ex_user_id e = user_id u \<and> ex_category_id e = None) (exercises d')) =
        length (filter (\<lambda>e. ex_user_id e = user_id u \<and> ex_category_id e = None) (exercises d)) +
        length (filter (\<lambda>e. ex_user_id e = user_id u \<and> ex_category_id e = Some (cat_id c))
                  (exercises d)) \<and>
      cat_id c \<notin> cat_id ` set (categories d') \<and>
      c \<notin> set (get_categories u d') \<and>
      set (categories d') = {x \<in> set (categories d). cat_id x \<noteq> cat_id c} \<and>
      (\<forall>i v. length (snd (delete_category i v d)) \<le> 1)"
proof -
  let ?i = "cat_id c"
  let ?g = "\<lambda>ex. if ex_category_id ex = Some ?i then ex\<lparr>ex_category_id := None\<rparr> else ex"
  let ?d' = "d\<lparr>exercises := map ?g (exercises d),
               categories := filter (\<lambda>x. cat_id x \<noteq> ?i) (categories d)\<rparr>"
  obtain x where x: "find (\<lambda>y. cat_id y = ?i \<and> cat_user_id y = user_id u) (categories d) = Some x"
    using assms by (cases "find (\<lambda>y. cat_id y = ?i \<and> cat_user_id y = user_id u) (categories d)")
      (auto simp: find_None_iff)
  have 0: "delete_category ?i u d = (Inr deleted_message, [?d'])"
    by (rule delete_category_found[OF x])
  have 1: "\<forall>e \<in> set (exercises d). ex_category_id e = Some ?i \<longrightarrow>
      e\<lparr>ex_category_id := None\<rparr> \<in> set (exercises ?d')"
    by (auto simp: image_iff intro!: bexI)
  have 2: "\<forall>e \<in> set (exercises d). ex_category_id e \<noteq> Some ?i \<longrightarrow> e \<in> set (exercises ?d')"
    by (auto simp: image_iff intro!: bexI)
  have 3: "\<forall>e \<in> set (exercises ?d'). ex_category_id e \<noteq> Some ?i"
    by auto
  have 4: "map ex_id (exercises ?d') = map ex_id (exercises d)"
    by (simp add: map_ex_id_unlink)
  have 5: "length (filter (\<lambda>e. ex_user_id e = user_id u \<and> ex_category_id e = None) (map ?g rows)) =
        length (filter (\<lambda>e. ex_user_id e = user_id u \<and> ex_category_id e = None) rows) +
        length (filter (\<lambda>e. ex_user_id e = user_id u \<and> ex_category_id e = Some ?i) rows)" for rows
    by (induction rows) auto
  have 6: "?i \<notin> cat_id ` set (categories ?d')" by auto
  then have 7: "c \<notin> set (get_categories u ?d')" by (auto simp: get_categories_def)
  have 8: "set (categories ?d') = {x \<in> set (categories d). cat_id x \<noteq> ?i}" by auto
  have 9: "\<forall>i v. length (snd (delete_category i v d)) \<le> 1"
    using delete_category_commits_le_1 by blast
  have cnt: "length (filter (\<lambda>e. ex_user_id e = user_id u \<and> ex_category_id e = None) (exercises ?d')) =
        length (filter (\<lambda>e. ex_user_id e = user_id u \<and> ex_category_id e = None) (exercises d)) +
        length (filter (\<lambda>e. ex_user_id e = user_id u \<and> ex_category_id e = Some ?i) (exercises d))"
    using 5[of "exercises d"] by simp
  show ?thesis
    by (rule exI[of _ ?d'], intro conjI) (rule 0 1 2 3 4 cnt 6 7 8 9)+
qed

theorem delete_category_unlinks_and_deletes_witness:
  "\<lparr>cat_id = 1, cat_name = ''legs'', cat_user_id = 1\<rparr> \<in> set (categories gym_db) \<and>
   cat_user_id \<lparr>cat_id = 1, cat_name = ''legs'', cat_user_id = 1\<rparr> = user_id alice \<and>
   (\<exists>d'. delete_category 1 alice gym_db = (Inr deleted_message, [d']) \<and>
      \<lparr>ex_id = 1, ex_name = ''squat'', ex_category_id = None, ex_user_id = 1\<rparr> \<in> set (exercises d') \<and>
      \<lparr>ex_id = 2, ex_name = ''lunge'', ex_category_id = None, ex_user_id = 1\<rparr> \<in> set (exercises d') \<and>
      \<lparr>ex_id = 4, ex_name = ''press'', ex_category_id = None, ex_user_id = 2\<rparr> \<in> set (exercises d') \<and>
      map ex_id (exercises d') = [1, 2, 3, 4] \<and>
      length (filter (\<lambda>e. ex_user_id e = user_id alice \<and> ex_category_id e = None) (exercises d')) = 2 \<and>
      1 \<notin> cat_id ` set (categories d') \<and>
      set (categories d') = {\<lparr>cat_id = 2, cat_name = ''arms'', cat_user_id = 2\<rparr>})"
proof -
  let ?c = "\<lparr>cat_id = 1, cat_name = ''legs'', cat_user_id = 1\<rparr>"
  have m: "?c \<in> set (categories gym_db)" by (simp add: gym_db_def)
  have own: "cat_user_id ?c = user_id alice" by (simp add: alice_def)
  from delete_category_unlinks_and_deletes[OF m own]
  obtain d' where d': "delete_category (cat_id ?c) alice gym_db = (Inr deleted_message, [d'])"
    and linked: "\<forall>e \<in> set (exercises gym_db). ex_category_id e = Some (cat_id ?c) \<longrightarrow>
          e\<lparr>ex_category_id := None\<rparr> \<in> set (exercises d')"
    and other: "\<forall>e \<in> set (exercises gym_db). ex_category_id e \<noteq> Some (cat_id ?c) \<longrightarrow>
          e \<in> set (exercises d')"
    and ids: "map ex_id (exercises d') = map ex_id (exercises gym_db)"
    and cnt: "length (filter (\<lambda>e. ex_user_id e = user_id alice \<and> ex_category_id e = None) (exercises d')) =
        length (filter (\<lambda>e. ex_user_id e = user_id alice \<and> ex_category_id e = None) (exercises gym_db)) +
        length (filter (\<lambda>e. ex_user_id e = user_id alice \<and> ex_category_id e = Some (cat_id ?c))
                  (exercises gym_db))"
    and gone: "cat_id ?c \<notin> cat_id ` set (categories d')"
    and rest: "set (categories d') = {x \<in> set (categories gym_db). cat_id x \<noteq> cat_id ?c}"
    by (elim exE conjE) (rule that; assumption)
  have 1: "delete_category 1 alice gym_db = (Inr deleted_message, [d'])" using d' by simp
  have 2: "\<lparr>ex_id = 1, ex_name = ''squat'', ex_category_id = None, ex_user_id = 1\<rparr> \<in> set (exercises d')"
    "\<lparr>ex_id = 2, ex_name = ''lunge'', ex_category_id = None, ex_user_id = 1\<rparr> \<in> set (exercises d')"
    using linked by (simp_all add: gym_db_def)
  have 3: "\<lparr>ex_id = 4, ex_name = ''press'', ex_category_id = None, ex_user_id = 2\<rparr> \<in> set (exercises d')"
    using other by (simp add: gym_db_def)
  have 4: "map ex_id (exercises d') = [1, 2, 3, 4]" using ids by (simp add: gym_db_def)
  have 5: "length (filter (\<lambda>e. ex_user_id e = user_id alice \<and> ex_category_id e = None) (exercises d')) = 2"
    using cnt by (simp add: gym_db_def alice_def)
  have 6: "1 \<notin> cat_id ` set (categories d')" using gone by simp
  have "set (categories d') = set (filter (\<lambda>x. cat_id x \<noteq> cat_id ?c) (categories gym_db))"
    using rest by simp
  then have 7: "set (categories d') = {\<lparr>cat_id = 2, cat_name = ''arms'', cat_user_id = 2\<rparr>}"
    by (simp add: gym_db_def)
  show ?thesis
    by (intro conjI exI[of _ d']) (rule m own 1 2 3 4 5 6 7)+
qed

text \<open>
  Claim C10. The exercises that a successful \<open>delete_category\<close> unlinks are chosen by
  \<open>category_id\<close> alone. Whoever owns an exercise that refers to the deleted id, the caller
  or another user, its row is committed with \<open>category_id\<close> null, and no exercise refers
  to the id afterwards.
\<close>

theorem delete_category_unlinks_any_owner:
  assumes "delete_category i u d = (Inr m, cs)"
  shows "\<exists>d'. cs = [d'] \<and>
      (\<forall>e \<in> set (exercises d). ex_category_id e = Some i \<longrightarrow>
          e\<lparr>ex_category_id := None\<rparr> \<in> set (exercises d') \<and>
          (ex_user_id e \<noteq> user_id u \<longrightarrow> e \<notin> set (exercises d'))) \<and>
      (\<forall>e \<in> set (exercises d'). ex_category_id e \<noteq> Some i)"
proof -
  let ?g = "\<lambda>ex. if ex_category_id ex = Some i then ex\<lparr>ex_category_id := None\<rparr> else ex"
  let ?d' = "d\<lparr>exercises := map ?g (exercises d),
               categories := filter (\<lambda>x. cat_id x \<noteq> i) (categories d)\<rparr>"
  obtain x where x: "find (\<lambda>y. cat_id y = i \<and> cat_user_id y = user_id u) (categories d) = Some x"
    using assms by (cases "find (\<lambda>y. cat_id y = i \<and> cat_user_id y = user_id u) (categories d)")
      (auto simp: delete_category_def)
  have cs: "cs = [?d']" using delete_category_found[OF x] assms by simp
  have 1: "\<forall>e \<in> set (exercises d). ex_category_id e = Some i \<longrightarrow>
      e\<lparr>ex_category_id := None\<rparr> \<in> set (exercises ?d') \<and>
      (ex_user_id e \<noteq> user_id u \<longrightarrow> e \<notin> set (exercises ?d'))"
    by (auto simp: image_iff intro!: bexI)
  have 3: "\<forall>e \<in> set (exercises ?d'). ex_category_id e \<noteq> Some i"
    by auto
  show ?thesis by (rule exI[of _ ?d'], intro conjI) (rule cs 1 3)+
qed

theorem delete_category_unlinks_any_owner_witness:
  "delete_category 1 alice gym_db =
     (Inr deleted_message,
      [gym_db\<lparr>exercises :=
          [\<lparr>ex_id = 1, ex_name = ''squat'', ex_category_id = None, ex_user_id = 1\<rparr>,
           \<lparr>ex_id = 2, ex_name = ''lunge'', ex_category_id = None, ex_user_id = 1\<rparr>,
           \<lparr>ex_id = 3, ex_name = ''curl'', ex_category_id = None, ex_user_id = 2\<rparr>,
           \<lparr>ex_id = 4, ex_name = ''press'', ex_category_id = None, ex_user_id = 2\<rparr>],
         categories := [\<lparr>cat_id = 2, cat_name = ''arms'', cat_user_id = 2\<rparr>]\<rparr>]) \<and>
   \<lparr>ex_id = 3, ex_name = ''curl'', ex_category_id = Some 1, ex_user_id = 2\<rparr> \<in> set (exercises gym_db) \<and>
   user_id bob \<noteq> user_id alice \<and>
   (\<exists>d'. snd (delete_category 1 alice gym_db) = [d'] \<and>
      \<lparr>ex_id = 3, ex_name = ''curl'', ex_category_id = None, ex_user_id = 2\<rparr> \<in> set (exercises d') \<and>
      \<lparr>ex_id = 3, ex_name = ''curl'', ex_category_id = Some 1, ex_user_id = 2\<rparr> \<notin> set (exercises d'))"
proof -
  let ?d1 = "gym_db\<lparr>exercises :=
          [\<lparr>ex_id = 1, ex_name = ''squat'', ex_category_id = None, ex_user_id = 1\<rparr>,
           \<lparr>ex_id = 2, ex_name = ''lunge'', ex_category_id = None, ex_user_id = 1\<rparr>,
           \<lparr>ex_id = 3, ex_name = ''curl'', ex_category_id = None, ex_user_id = 2\<rparr>,
           \<lparr>ex_id = 4, ex_name = ''press'', ex_category_id = None, ex_user_id = 2\<rparr>],
         categories := [\<lparr>cat_id = 2, cat_name = ''arms'', cat_user_id = 2\<rparr>]\<rparr>"
  let ?e = "\<lparr>ex_id = 3, ex_name = ''curl'', ex_category_id = Some 1, ex_user_id = 2\<rparr>"
  have run: "delete_category 1 alice gym_db = (Inr deleted_message, [?d1])"
    by (simp add: delete_category_def gym_db_def alice_def)
  have m: "?e \<in> set (exercises gym_db)" by (simp add: gym_db_def)
  have ne: "user_id bob \<noteq> user_id alice" by (simp add: alice_def bob_def)
  from delete_category_unlinks_any_owner[OF run]
  obtain d' where d': "[?d1] = [d']"
    and all: "\<forall>e \<in> set (exercises gym_db). ex_category_id e = Some 1 \<longrightarrow>
          e\<lparr>ex_category_id := None\<rparr> \<in> set (exercises d') \<and>
          (ex_user_id e \<noteq> user_id alice \<longrightarrow> e \<notin> set (exercises d'))"
    by (elim exE conjE) (rule that; assumption)
  have "?e\<lparr>ex_category_id := None\<rparr> \<in> set (exercises d') \<and> ?e \<notin> set (exercises d')"
    using bspec[OF all m] by (simp add: alice_def)
  then have "snd (delete_category 1 alice gym_db) = [d'] \<and>
      \<lparr>ex_id = 3, ex_name = ''curl'', ex_category_id = None, ex_user_id = 2\<rparr> \<in> set (exercises d') \<and>
      ?e \<notin> set (exercises d')"
    unfolding run using d' by simp
  then have "\<exists>d'. snd (delete_category 1 alice gym_db) = [d'] \<and>
      \<lparr>ex_id = 3, ex_name = ''curl'', ex_category_id = None, ex_user_id = 2\<rparr> \<in> set (exercises d') \<and>
      ?e \<notin> set (exercises d')"
    by (rule exI)
  with run m ne show ?thesis by (intro conjI)
qed

subsection \<open>Registration\<close>

text \<open>
  The users' passwords are hashed by a parameter of the model; the identity stands for it
  in the examples.
\<close>

lemma register_carol:
  "register (\<lambda>p. p) carol_create empty_db = (Inr carol, [carol_only, carol_seeded])"
  by (simp add: register_def carol_create_def empty_db_def carol_def carol_only_def
      carol_seeded_def default_exercises_def add_exercise_def next_id_def Let_def)

text \<open>
  User creation and seeding are not one transaction: the first state that a successful
  registration commits holds the user and none of the six exercises.
\<close>

theorem register_not_atomic:
  "register (\<lambda>p. p) carol_create empty_db = (Inr carol, [carol_only, carol_seeded]) \<and>
   carol \<in> set (users carol_only) \<and> exercises carol_only = [] \<and>
   \<not> registered_whole (user_id carol) carol_only"
  by (simp add: register_carol) (simp add: registered_whole_def carol_only_def carol_def)

text \<open>
  Claim C7, as the code has it. A successful registration commits twice. The first commit
  stores the user row alone: the user exists and owns no exercise. The second commit adds
  six exercise rows together, after the rows already stored; in that state the user owns
  exactly these six, named as \<open>default_exercises\<close>, in that order, all with
  \<open>category_id\<close> null. Nothing else is changed by either commit.
\<close>

theorem register_seeds_six:
  assumes "wf_db d" and "register h uc d = (Inr nu, cs)"
  shows "\<exists>d1 d2 new. cs = [d1, d2] \<and>
      user_id nu \<notin> user_id ` set (users d) \<and>
      d1 = d\<lparr>users := users d @ [nu]\<rparr> \<and>
      get_exercises nu d1 = [] \<and>
      d2 = d1\<lparr>exercises := exercises d @ new\<rparr> \<and>
      get_exercises nu d2 = new \<and>
      length new = 6 \<and>
      map ex_name new = default_exercises \<and>
      (\<forall>e \<in> set new. ex_category_id e = None \<and> ex_user_id e = user_id nu) \<and>
      distinct (map ex_id (exercises d @ new))"
proof -
  let ?uid = "next_id (map user_id (users d))"
  have none: "find (\<lambda>u. user_email u = uc_email uc) (users d) = None"
    using assms(2) by (cases "find (\<lambda>u. user_email u = uc_email uc) (users d)")
      (auto simp: register_def)
  have nu: "nu = \<lparr>user_id = ?uid, user_email = uc_email uc,
      user_hashed_password = h (uc_password uc)\<rparr>"
    using assms(2) none by (auto simp: register_def Let_def)
  then have uid: "user_id nu = ?uid" by simp
  obtain new where new: "foldl (add_exercise ?uid) (exercises d) default_exercises = exercises d @ new"
    "map ex_name new = default_exercises"
    "\<forall>e \<in> set new. ex_user_id e = ?uid \<and> ex_category_id e = None"
    using foldl_add_exercise_append[of ?uid "exercises d" default_exercises] by blast
  let ?d1 = "d\<lparr>users := users d @ [nu]\<rparr>"
  let ?d2 = "?d1\<lparr>exercises := exercises d @ new\<rparr>"
  have cs: "cs = [?d1, ?d2]"
    using assms(2) none new(1) nu by (auto simp: register_def Let_def)
  have fresh: "user_id nu \<notin> user_id ` set (users d)"
    using next_id_fresh[of "map user_id (users d)"] uid by simp
  have "\<forall>e \<in> set (exercises d). ex_user_id e \<in> user_id ` set (users d)"
    using assms(1) by (simp add: wf_db_def)
  then have old: "\<forall>e \<in> set (exercises d). ex_user_id e \<noteq> user_id nu"
    using fresh by metis
  then have f0: "filter (\<lambda>e. ex_user_id e = user_id nu) (exercises d) = []"
    by (simp add: filter_empty_conv)
  have g1: "get_exercises nu ?d1 = []" using f0 by (simp add: get_exercises_def)
  have "filter (\<lambda>e. ex_user_id e = user_id nu) new = new"
    using new(3) uid by (simp add: filter_id_conv)
  then have g2: "get_exercises nu ?d2 = new" using f0 by (simp add: get_exercises_def)
  have "length (map ex_name new) = 6" unfolding new(2) by (simp add: default_exercises_def)
  then have len: "length new = 6" by simp
  have cat: "\<forall>e \<in> set new. ex_category_id e = None \<and> ex_user_id e = user_id nu"
    using new(3) uid by simp
  have "distinct (map ex_id (foldl (add_exercise ?uid) (exercises d) default_exercises))"
    using assms(1) by (intro foldl_add_exercise_ids) (simp add: wf_db_def)
  then have dist: "distinct (map ex_id (exercises d @ new))" unfolding new(1) .
  show ?thesis
    by (intro exI[of _ ?d1] exI[of _ ?d2] exI[of _ new] conjI)
       (rule cs fresh refl g1 g2 len new(2) cat dist)+
qed


theorem register_seeds_six_witness:
  "wf_db empty_db \<and>
   register (\<lambda>p. p) carol_create empty_db = (Inr carol, [carol_only, carol_seeded]) \<and>
   get_exercises carol carol_only = [] \<and>
   length (get_exercises carol carol_seeded) = 6 \<and>
   map ex_name (get_exercises carol carol_seeded) = default_exercises \<and>
   set (map ex_category_id (get_exercises carol carol_seeded)) = {None}"
proof -
  from register_seeds_six[OF wf_empty_db register_carol]
  obtain d1 d2 new where cs: "[carol_only, carol_seeded] = [d1, d2]"
    and g1: "get_exercises carol d1 = []"
    and g2: "get_exercises carol d2 = new"
    and len: "length new = 6"
    and names: "map ex_name new = default_exercises"
    and cat: "\<forall>e \<in> set new. ex_category_id e = None \<and> ex_user_id e = user_id carol"
    by (elim exE conjE) (rule that; assumption)
  have d1: "d1 = carol_only" and d2: "d2 = carol_seeded" using cs by simp_all
  have "new \<noteq> []" using len by auto
  then have "set (map ex_category_id new) = {None}" using cat by (cases new) auto
  then show ?thesis
    using wf_empty_db register_carol g1 g2 len names unfolding d1 d2 by simp
qed

subsection \<open>Category links of exercises\<close>

lemma after_in_commits: "cs \<noteq> [] \<Longrightarrow> after d cs \<in> set cs"
  by (simp add: after_def)

lemma reachable_step:
  assumes "reachable_under G d" "authenticated req d" "G req d" "commits req d \<noteq> []"
  shows "reachable_under G (after d (commits req d))"
  using assms(1-3) after_in_commits[OF assms(4)] by (rule reachable_under.committed)

lemma commits_create_nonempty [simp]:
  "snd (create_category cc u d) \<noteq> []" "snd (create_exercise ec u d) \<noteq> []"
  by (simp_all add: create_category_def create_exercise_def Let_def)

lemma category_links_owned_commits:
  assumes "category_links_owned d" "category_contract req d" "d' \<in> set (commits req d)"
  shows "category_links_owned d'"
proof (cases req)
  case (Register h uc)
  let ?uid = "next_id (map user_id (users d))"
  obtain new where new: "foldl (add_exercise ?uid) (exercises d) default_exercises = exercises d @ new"
    "\<forall>e \<in> set new. ex_user_id e = ?uid \<and> ex_category_id e = None"
    using foldl_add_exercise_append[of ?uid "exercises d" default_exercises] by blast
  have "categories d' = categories d \<and>
      (exercises d' = exercises d \<or> exercises d' = exercises d @ new)"
    using assms(3) Register new(1)
    by (auto simp: register_def Let_def split: option.splits)
  then show ?thesis
    using assms(1) new(2) by (auto simp: category_links_owned_def split: option.splits)
next
  case (CreateCategory cc u)
  then show ?thesis using assms
    by (fastforce simp: category_links_owned_def create_category_def Let_def split: option.splits)
next
  case (DeleteCategory i u)
  then show ?thesis using assms
    by (fastforce simp: category_links_owned_def delete_category_def Let_def
        split: option.splits if_splits dest!: find_SomeD)
next
  case (CreateExercise ec u)
  then show ?thesis using assms
    by (auto simp: category_links_owned_def create_exercise_def category_ok_def Let_def
        split: option.splits)
next
  case (UpdateExercise i eu u)
  then show ?thesis using assms
    by (auto simp: category_links_owned_def update_exercise_def category_ok_def Let_def
        split: option.splits if_splits dest!: find_SomeD)
next
  case (DeleteExercise i u)
  then show ?thesis using assms
    by (auto simp: category_links_owned_def delete_exercise_def Let_def split: option.splits)
next
  case (CreateRecord rc u)
  then show ?thesis using assms
    by (auto simp: category_links_owned_def create_record_def Let_def
        split: option.splits if_splits)
next
  case (DeleteRecord i u)
  then show ?thesis using assms
    by (auto simp: category_links_owned_def delete_record_def split: option.splits if_splits)
qed (use assms in auto)


lemma reachable_carol_seeded:
  assumes "\<And>h uc d. G (Register h uc) d"
  shows "reachable_under G carol_seeded"
proof -
  have "carol_seeded \<in> set (commits (Register (\<lambda>p. p) carol_create) empty_db)"
    by (simp add: register_carol)
  then show ?thesis
    using reachable_under.committed[OF reachable_under.initial, of "Register (\<lambda>p. p) carol_create" G]
      assms by simp
qed

lemma users_two_users: "users two_users = [carol, dave]"
  by (simp add: two_users_def register_def after_def carol_seeded_def carol_only_def carol_def
      dave_create_def dave_def next_id_def Let_def)

lemma categories_two_users: "categories two_users = []"
  by (simp add: two_users_def register_def after_def carol_seeded_def carol_only_def carol_def
      dave_create_def Let_def)

lemma exercise_ids_two_users:
  "map ex_id (exercises two_users) = [1, 2, 3, 4, 5, 6, 7, 8, 9, 10, 11, 12]"
  by (simp add: two_users_def register_def after_def carol_seeded_def carol_only_def carol_def
      dave_create_def Let_def default_exercises_def add_exercise_def next_id_def)

lemma reachable_two_users:
  assumes "\<And>h uc d. G (Register h uc) d"
  shows "reachable_under G two_users"
proof -
  have "commits (Register (\<lambda>p. p) dave_create) carol_seeded \<noteq> []"
    by (simp add: register_def carol_seeded_def carol_only_def carol_def dave_create_def Let_def)
  then show ?thesis
    unfolding two_users_def
    using reachable_step[OF reachable_carol_seeded[of G], of "Register (\<lambda>p. p) dave_create"] assms
    by simp
qed


lemma users_with_category: "users with_category = [carol, dave]"
  by (simp add: with_category_def create_category_def after_def Let_def users_two_users)

lemma categories_with_category:
  "categories with_category = [\<lparr>cat_id = 1, cat_name = ''legs'', cat_user_id = 2\<rparr>]"
  by (simp add: with_category_def create_category_def after_def Let_def categories_two_users
      next_id_def dave_def)

lemma categories_cross_linked:
  "categories cross_linked = [\<lparr>cat_id = 1, cat_name = ''legs'', cat_user_id = 2\<rparr>]"
  by (simp add: cross_linked_def create_exercise_def after_def Let_def categories_with_category)

lemma exercises_cross_linked:
  "\<lparr>ex_id = 13, ex_name = ''lunge'', ex_category_id = Some 1, ex_user_id = 1\<rparr>
     \<in> set (exercises cross_linked)"
proof -
  have "map ex_id (exercises with_category) = [1, 2, 3, 4, 5, 6, 7, 8, 9, 10, 11, 12]"
    by (simp add: with_category_def create_category_def after_def Let_def
        exercise_ids_two_users)
  then have "next_id (map ex_id (exercises with_category)) = 13"
    by (simp add: next_id_def)
  then show ?thesis
    by (simp add: cross_linked_def create_exercise_def after_def Let_def carol_def)
qed

lemma reachable_cross_linked: "reachable cross_linked"
proof -
  let ?G = "\<lambda>req d. True"
  have 2: "reachable_under ?G two_users" by (rule reachable_two_users) simp
  have 3: "reachable_under ?G with_category"
    unfolding with_category_def
    by (rule reachable_step[OF 2]) (simp_all add: users_two_users)
  have 4: "reachable_under ?G cross_linked"
    unfolding cross_linked_def
    by (rule reachable_step[OF 3]) (simp_all add: users_with_category)
  then show ?thesis by (simp add: reachable_def)
qed

text \<open>
  A reachable state in which an exercise refers to a category of another user: Dave
  creates the category 1, and Carol creates an exercise with that category id.
\<close>

theorem category_link_to_foreign_category:
  "reachable cross_linked \<and>
   categories cross_linked = [\<lparr>cat_id = 1, cat_name = ''legs'', cat_user_id = 2\<rparr>] \<and>
   \<lparr>ex_id = 13, ex_name = ''lunge'', ex_category_id = Some 1, ex_user_id = 1\<rparr>
     \<in> set (exercises cross_linked) \<and>
   \<not> category_links_owned cross_linked"
proof -
  let ?e = "\<lparr>ex_id = 13, ex_name = ''lunge'', ex_category_id = Some 1, ex_user_id = 1\<rparr>"
  have "\<not> category_links_owned cross_linked"
  proof
    assume "category_links_owned cross_linked"
    then have "case ex_category_id ?e of None \<Rightarrow> True
      | Some k \<Rightarrow> \<exists>c \<in> set (categories cross_linked). cat_id c = k \<and> cat_user_id c = ex_user_id ?e"
      using exercises_cross_linked unfolding category_links_owned_def by (rule bspec)
    then show False by (simp add: categories_cross_linked)
  qed
  then show ?thesis
    using reachable_cross_linked categories_cross_linked exercises_cross_linked by (intro conjI)
qed

text \<open>
  Claim C9, as the code has it. \<open>create_exercise\<close> and \<open>update_exercise\<close> store the category
  id of the request unchecked. In every state reached by requests that keep the contract,
  a category id that is null or the id of a category of the caller, every exercise with a
  category refers to a stored category of its own owner; all the other handlers preserve
  this without any condition.
\<close>

theorem contract_keeps_category_links:
  assumes "reachable_under category_contract d"
  shows "category_links_owned d"
  using assms
proof (induction rule: reachable_under.induct)
  case initial
  then show ?case by (simp add: category_links_owned_def empty_db_def)
next
  case (committed d req d')
  then show ?case by (auto intro: category_links_owned_commits)
qed

lemma reachable_own_linked: "reachable_under category_contract own_linked"
proof -
  have 1: "reachable_under category_contract carol_seeded"
    by (rule reachable_carol_seeded) simp
  have u: "users own_category = [carol]"
    by (simp add: own_category_def create_category_def after_def Let_def carol_seeded_def
        carol_only_def)
  have c: "categories own_category = [\<lparr>cat_id = 1, cat_name = ''legs'', cat_user_id = 1\<rparr>]"
    by (simp add: own_category_def create_category_def after_def Let_def carol_seeded_def
        carol_only_def next_id_def carol_def)
  have 2: "reachable_under category_contract own_category"
    unfolding own_category_def
    by (rule reachable_step[OF 1]) (simp_all add: carol_seeded_def carol_only_def)
  show ?thesis
    unfolding own_linked_def
    by (rule reachable_step[OF 2]) (simp_all add: u c category_ok_def carol_def)
qed

theorem contract_keeps_category_links_witness:
  "reachable_under category_contract own_linked \<and>
   \<lparr>ex_id = 7, ex_name = ''lunge'', ex_category_id = Some 1, ex_user_id = 1\<rparr>
     \<in> set (exercises own_linked) \<and>
   category_links_owned own_linked"
proof -
  have "\<lparr>ex_id = 7, ex_name = ''lunge'', ex_category_id = Some 1, ex_user_id = 1\<rparr>
     \<in> set (exercises own_linked)"
    by (simp add: own_linked_def own_category_def create_exercise_def create_category_def
        after_def Let_def carol_seeded_def carol_only_def next_id_def carol_def)
  then show ?thesis
    using reachable_own_linked contract_keeps_category_links[OF reachable_own_linked]
    by (intro conjI)
qed

subsection \<open>Runs that store a record and then delete its exercise\<close>

lemma wf_carol_seeded: "wf_db carol_seeded"
  by (simp add: wf_db_def carol_seeded_def carol_only_def carol_def)

lemma find_bench_press:
  "find (\<lambda>e. ex_id e = 1 \<and> ex_user_id e = user_id carol) (exercises carol_seeded) =
     Some \<lparr>ex_id = 1, ex_name = bench_press, ex_category_id = None, ex_user_id = 1\<rparr>"
  by (simp add: carol_seeded_def carol_def)

lemma create_bench_record:
  "create_record bench_request carol carol_seeded =
     (Inr bench_record, [carol_seeded\<lparr>workout_records := [bench_record]\<rparr>])"
proof -
  have r: "in_int64 1" "in_int64 10" "in_int64 3" by (simp_all add: in_int64_def)
  have n: "workout_records carol_seeded = []" by (simp add: carol_seeded_def carol_only_def)
  show ?thesis
    using r find_bench_press bench_volume
    by (simp add: create_record_def bench_request_def bench_record_def Let_def n next_id_def
        sqlite_real_def response_error_def response_valid_def response_renders_def carol_def)
qed

lemma logged_eq: "logged = carol_seeded\<lparr>workout_records := [bench_record]\<rparr>"
  by (simp add: logged_def create_bench_record after_def)

lemma workout_records_logged: "workout_records logged = [bench_record]"
  by (simp add: logged_eq)

lemma logged_committed: "logged \<in> set (commits (CreateRecord bench_request carol) carol_seeded)"
  by (simp add: create_bench_record logged_eq)

lemma reachable_logged: "reachable logged"
  unfolding reachable_def
  by (rule reachable_under.committed[OF reachable_carol_seeded _ _ logged_committed])
     (simp_all add: carol_seeded_def carol_only_def)

lemma wf_logged: "wf_db logged"
  using reachable_logged unfolding reachable_def by (rule reachable_under_wf)

lemma delete_bench_press:
  "delete_exercise 1 carol logged =
     (Inr deleted_message,
      [logged\<lparr>workout_records := [bench_record\<lparr>rec_exercise_id := None\<rparr>],
              exercises := filter (\<lambda>e. ex_id e \<noteq> 1) (exercises logged)\<rparr>])"
proof -
  have "find (\<lambda>e. ex_id e = 1 \<and> ex_user_id e = user_id carol) (exercises logged) =
      Some \<lparr>ex_id = 1, ex_name = bench_press, ex_category_id = None, ex_user_id = 1\<rparr>"
    using find_bench_press by (simp add: logged_eq)
  then show ?thesis
    by (simp add: delete_exercise_def Let_def workout_records_logged bench_record_def)
qed

lemma orphaned_eq:
  "orphaned = logged\<lparr>workout_records := [bench_record\<lparr>rec_exercise_id := None\<rparr>],
                     exercises := filter (\<lambda>e. ex_id e \<noteq> 1) (exercises logged)\<rparr>"
  by (simp add: orphaned_def delete_bench_press after_def)

lemma commits_delete_bench: "commits (DeleteExercise 1 carol) logged = [orphaned]"
  by (simp add: delete_bench_press orphaned_eq)

lemma workout_records_orphaned:
  "workout_records orphaned = [bench_record\<lparr>rec_exercise_id := None\<rparr>]"
  by (simp add: orphaned_eq)

subsection \<open>The volume of a record\<close>

text \<open>
  Claim C3. A successful \<open>create_record\<close> commits once, appending the returned record,
  whose volume is the float product of the weight, the repetitions and the sets of the
  request, in this order (1500 for 50, 10 and 3), and is a finite float. No request
  changes the volume of a stored record afterwards: in every state that a request commits
  from a well-formed database, the row with the key of a record that was stored before
  still has the volume it had.
\<close>

theorem create_record_volume:
  assumes "create_record rc u d = (Inr r, cs)"
  shows "rec_volume r = Some (float_mul (float_mul (rc_weight rc) (float_of_int (rc_reps rc)))
                                 (float_of_int (rc_sets rc))) \<and>
         stored_finite (rec_volume r) \<and>
         cs = [d\<lparr>workout_records := workout_records d @ [r]\<rparr>] \<and>
         (rc_weight rc = Finite 50 \<and> rc_reps rc = 10 \<and> rc_sets rc = 3 \<longrightarrow>
            rec_volume r = Some (Finite 1500)) \<and>
         (\<forall>req d0 d' r'. wf_db d0 \<and> r \<in> set (workout_records d0) \<and> d' \<in> set (commits req d0) \<and>
              r' \<in> set (workout_records d') \<and> rec_id r' = rec_id r \<longrightarrow>
              rec_volume r' = rec_volume r)"
proof -
  let ?v = "float_mul (float_mul (rc_weight rc) (float_of_int (rc_reps rc)))
              (float_of_int (rc_sets rc))"
  obtain e where e: "find (\<lambda>e. ex_id e = rc_exercise_id rc \<and> ex_user_id e = user_id u)
      (exercises d) = Some e"
    using assms by (cases "find (\<lambda>e. ex_id e = rc_exercise_id rc \<and> ex_user_id e = user_id u)
      (exercises d)") (auto simp: create_record_def split: if_splits)
  have ok: "response_error [r] = None" and sv: "rec_volume r = sqlite_real ?v"
    and c: "cs = [d\<lparr>workout_records := workout_records d @ [r]\<rparr>]"
    using assms e
    by (auto simp: create_record_def Let_def split: if_splits option.splits)
  have valid: "rec_volume r \<noteq> None" and fin: "stored_finite (rec_volume r)"
    using ok by (auto simp: response_error_def response_valid_def response_renders_def
        split: if_splits)
  have v: "rec_volume r = Some ?v"
    using valid sv by (auto simp: sqlite_real_def split: if_splits)
  have f: "rec_volume r' = rec_volume r"
    if "wf_db d0" "r \<in> set (workout_records d0)" "d' \<in> set (commits req d0)"
      "r' \<in> set (workout_records d')" "rec_id r' = rec_id r" for req d0 d' r'
  proof -
    from record_frame[OF that(1) that(3) that(2) that(4) that(5)]
    have "r' = r\<lparr>rec_exercise_id := rec_exercise_id r'\<rparr>" by simp
    then have "rec_volume r' = rec_volume (r\<lparr>rec_exercise_id := rec_exercise_id r'\<rparr>)" by simp
    then show ?thesis by simp
  qed
  then have f': "\<forall>req d0 d' r'. wf_db d0 \<and> r \<in> set (workout_records d0) \<and>
      d' \<in> set (commits req d0) \<and> r' \<in> set (workout_records d') \<and> rec_id r' = rec_id r \<longrightarrow>
      rec_volume r' = rec_volume r"
    by blast
  have ex: "rc_weight rc = Finite 50 \<and> rc_reps rc = 10 \<and> rc_sets rc = 3 \<longrightarrow>
      rec_volume r = Some (Finite 1500)"
    using v bench_volume by simp
  from v fin c ex f' show ?thesis by (intro conjI)
qed

theorem create_record_volume_witness:
  "create_record bench_request carol carol_seeded =
     (Inr bench_record, [carol_seeded\<lparr>workout_records := [bench_record]\<rparr>]) \<and>
   rc_weight bench_request = Finite 50 \<and> rc_reps bench_request = 10 \<and>
   rc_sets bench_request = 3 \<and>
   rec_volume bench_record = Some (Finite 1500) \<and>
   wf_db logged \<and>
   bench_record \<in> set (workout_records logged) \<and>
   orphaned \<in> set (commits (DeleteExercise 1 carol) logged) \<and>
   bench_record\<lparr>rec_exercise_id := None\<rparr> \<in> set (workout_records orphaned) \<and>
   rec_volume (bench_record\<lparr>rec_exercise_id := None\<rparr>) = Some (Finite 1500)"
proof -
  note vol = create_record_volume[OF create_bench_record]
  have rq: "rc_weight bench_request = Finite 50" "rc_reps bench_request = 10"
    "rc_sets bench_request = 3"
    by (simp_all add: bench_request_def)
  have v: "rec_volume bench_record = Some (Finite 1500)"
    using vol rq by blast
  have m: "bench_record \<in> set (workout_records logged)"
    by (simp add: workout_records_logged)
  have c: "orphaned \<in> set (commits (DeleteExercise 1 carol) logged)"
    by (simp only: commits_delete_bench list.set insertI1)
  let ?r' = "bench_record\<lparr>rec_exercise_id := None\<rparr>"
  have m': "?r' \<in> set (workout_records orphaned)"
    by (simp add: workout_records_orphaned)
  from vol
  have "wf_db logged \<and> bench_record \<in> set (workout_records logged) \<and>
      orphaned \<in> set (commits (DeleteExercise 1 carol) logged) \<and>
      ?r' \<in> set (workout_records orphaned) \<and> rec_id ?r' = rec_id bench_record \<longrightarrow>
      rec_volume ?r' = rec_volume bench_record"
    by blast
  then have v': "rec_volume ?r' = Some (Finite 1500)"
    using wf_logged m c m' v by simp
  show ?thesis
    by (intro conjI) (rule create_bench_record rq v wf_logged m c m' v')+
qed

subsection \<open>Deleting the exercise of a stored record\<close>

text \<open>
  Claim C8 fails on the code. Carol logs a bench press, and \<open>get_records\<close> returns the
  record. She then deletes the exercise: the commit keeps the record under its key with
  \<open>exercise_id\<close> null, so the stored row is neither left whole nor deleted, and from then
  on \<open>get_records\<close> fails on it, since the response schema requires an \<open>exercise_id\<close>.
\<close>

theorem delete_exercise_rewrites_record:
  "reachable logged \<and> carol \<in> set (users logged) \<and>
   workout_records logged = [bench_record] \<and>
   get_records carol logged = Inr [bench_record] \<and>
   delete_exercise 1 carol logged = (Inr deleted_message, [orphaned]) \<and>
   workout_records orphaned = [bench_record\<lparr>rec_exercise_id := None\<rparr>] \<and>
   bench_record \<notin> set (workout_records orphaned) \<and>
   rec_id bench_record \<in> rec_id ` set (workout_records orphaned) \<and>
   rec_exercise_name (bench_record\<lparr>rec_exercise_id := None\<rparr>) = rec_exercise_name bench_record \<and>
   rec_volume (bench_record\<lparr>rec_exercise_id := None\<rparr>) = rec_volume bench_record \<and>
   get_records carol orphaned = Inl ResponseValidationError"
proof -
  have u: "carol \<in> set (users logged)"
    by (simp add: logged_eq carol_seeded_def carol_only_def)
  have g: "get_records carol logged = Inr [bench_record]"
    by (simp add: get_records_def records_of_def workout_records_logged response_error_def
        response_valid_def response_renders_def bench_record_def carol_def)
  have del: "delete_exercise 1 carol logged = (Inr deleted_message, [orphaned])"
    by (simp add: delete_bench_press orphaned_eq)
  have n: "bench_record \<notin> set (workout_records orphaned)"
    by (simp add: workout_records_orphaned) (simp add: bench_record_def)
  have i: "rec_id bench_record \<in> rec_id ` set (workout_records orphaned)"
    by (simp add: workout_records_orphaned)
  have g': "get_records carol orphaned = Inl ResponseValidationError"
    by (simp add: get_records_def records_of_def workout_records_orphaned response_error_def
        response_valid_def bench_record_def carol_def)
  have same: "rec_exercise_name (bench_record\<lparr>rec_exercise_id := None\<rparr>) = rec_exercise_name bench_record"
    "rec_volume (bench_record\<lparr>rec_exercise_id := None\<rparr>) = rec_volume bench_record"
    by simp_all
  show ?thesis
    by (intro conjI)
       (rule reachable_logged u workout_records_logged g del workout_records_orphaned n i same g')+
qed

subsection \<open>Statistics\<close>











text \<open>When \<open>get_stats\<close> returns, and what it raises when it does not.\<close>

lemma get_stats_returns_iff:
  fixes u :: user and d :: db
  defines "s \<equiv> py_sum (map (\<lambda>r. py_or0 (rec_volume r)) (records_of u d))"
    and "m \<equiv> py_max_default (map (\<lambda>r. py_or0 (rec_weight r)) (records_of u d)) (Finite 0)"
  shows
    "((\<exists>st. get_stats u d = Inr st) = (is_finite s \<and> is_finite m)) \<and>
     (s = PosInf \<or> s = NegInf \<longrightarrow> get_stats u d = Inl OverflowError) \<and>
     (s = NaN \<longrightarrow> get_stats u d = Inl ValueError) \<and>
     (is_finite s \<and> \<not> is_finite m \<longrightarrow> get_stats u d = Inl ValueError)"
proof -
  have g: "get_stats u d =
      (case py_int s of
         Inl e \<Rightarrow> Inl e
       | Inr n \<Rightarrow>
           if is_finite m
           then Inr \<lparr>total_workouts = card (rec_date ` set (records_of u d)), total_volume = n,
                     max_weight = m\<rparr>
           else Inl ValueError)"
    unfolding get_stats_def Let_def s_def m_def set_map by (rule refl)
  have 1: "(\<exists>st. get_stats u d = Inr st) = (is_finite s \<and> is_finite m)"
    unfolding g by (cases s) auto
  have 3: "s = PosInf \<or> s = NegInf \<longrightarrow> get_stats u d = Inl OverflowError"
    unfolding g by auto
  have 4: "s = NaN \<longrightarrow> get_stats u d = Inl ValueError"
    unfolding g by auto
  have 5: "is_finite s \<and> \<not> is_finite m \<longrightarrow> get_stats u d = Inl ValueError"
    unfolding g by (cases s) auto
  show ?thesis by (intro conjI) (rule 1 3 4 5)+
qed



end
